theory Spec2Isabelle
  imports Complex_Main "HOL-Library.AList" "HOL-Library.Sublist"
begin

section \<open>JSON values\<close>

text \<open>
  The values that \<open>response.json()\<close> produces and that the sanitizer walks: Python's
  \<open>None\<close>, \<open>bool\<close>, \<open>int\<close>, \<open>str\<close>, \<open>list\<close> and \<open>dict\<close> with string keys.
  A \<open>dict\<close> is an association list in insertion order; the keys of a Python
  \<open>dict\<close> are pairwise distinct (\<open>wf_json\<close> below). Numbers are Python's unbounded
  integers; non-integral numbers are not represented.
\<close>

datatype json =
    JNull
  | JBool bool
  | JNum int
  | JStr string
  | JArr "json list"
  | JObj "(string \<times> json) list"

text \<open>The exceptions the modelled code can raise on JSON values.\<close>

datatype error =
    AttributeError
  | TypeError
  | ValueError
  | KeyError
  | NonStringKey

text \<open>
  \<open>NonStringKey\<close> is not a Python exception: it marks the one place where the code
  would build a \<open>dict\<close> with a key that is not a string (\<open>dict(meta)\<close> on a list of
  pairs), which is not a value of type \<open>json\<close>.
\<close>

fun wf_json :: "json \<Rightarrow> bool" where
  "wf_json JNull = True"
| "wf_json (JBool b) = True"
| "wf_json (JNum n) = True"
| "wf_json (JStr s) = True"
| "wf_json (JArr xs) = (\<forall>x \<in> set xs. wf_json x)"
| "wf_json (JObj kvs) = (distinct (map fst kvs) \<and> (\<forall>kv \<in> set kvs. wf_json (snd kv)))"

text \<open>\<open>d.get(k)\<close> and \<open>d.get(k, default)\<close>.\<close>

definition py_get_default :: "(string \<times> json) list \<Rightarrow> string \<Rightarrow> json \<Rightarrow> json" where
  "py_get_default d k dflt = (case map_of d k of None \<Rightarrow> dflt | Some v \<Rightarrow> v)"

definition py_get :: "(string \<times> json) list \<Rightarrow> string \<Rightarrow> json" where
  "py_get d k = py_get_default d k JNull"

text \<open>Python's truth value of a JSON value.\<close>

fun truthy :: "json \<Rightarrow> bool" where
  "truthy JNull = False"
| "truthy (JBool b) = b"
| "truthy (JNum n) = (n \<noteq> 0)"
| "truthy (JStr s) = (s \<noteq> [])"
| "truthy (JArr xs) = (xs \<noteq> [])"
| "truthy (JObj kvs) = (kvs \<noteq> [])"

text \<open>The test \<open>v in (None, "", {}, [])\<close>.\<close>

fun is_empty_value :: "json \<Rightarrow> bool" where
  "is_empty_value JNull = True"
| "is_empty_value (JStr s) = (s = [])"
| "is_empty_value (JArr xs) = (xs = [])"
| "is_empty_value (JObj kvs) = (kvs = [])"
| "is_empty_value v = False"

text \<open>Decimal rendering of an integer, as an f-string renders it.\<close>

fun str_of_nat :: "nat \<Rightarrow> string" where
  "str_of_nat n =
     (if n < 10 then [''0123456789'' ! n]
      else str_of_nat (n div 10) @ [''0123456789'' ! (n mod 10)])"

declare str_of_nat.simps [simp del]

definition str_of_int :: "int \<Rightarrow> string" where
  "str_of_int i = (if i < 0 then CHR ''-'' # str_of_nat (nat (- i)) else str_of_nat (nat i))"

section \<open>The API client (productive\_client.py)\<close>

text \<open>
  An HTTP response as \<open>_request\<close> reads it: the status code, the result of
  \<open>response.json()\<close> (\<open>None\<close> when it raises) and \<open>response.text\<close>.
\<close>

record response =
  status_code :: int
  json_body :: "json option"
  text_body :: string

text \<open>
  What one call of \<open>self.client.request\<close> does: it returns a response or raises an
  \<open>httpx.RequestError\<close> whose \<open>str\<close> is the given text.
\<close>

datatype outcome = Http response | RequestError string

text \<open>
  What \<open>_request\<close> raises: a \<open>ProductiveAPIError(message, status_code, error_code)\<close>
  (a missing status code is \<open>None\<close>, a missing error code is \<open>JNull\<close>), or the
  decoding error of \<open>response.json()\<close> on a 200 response, which no handler catches.
\<close>

datatype exn =
    ProductiveAPIError json "int option" json
  | JSONDecodeError

definition max_retries :: nat where
  "max_retries = 3"

definition retry_delay :: real where
  "retry_delay = 1"

definition parse_error_response :: "response \<Rightarrow> string \<Rightarrow> json \<times> json" where
  "parse_error_response r default_message =
     (case json_body r of
        Some (JObj error_data) \<Rightarrow>
          (py_get_default error_data ''message'' (JStr default_message),
           py_get_default error_data ''errorCode'' (JStr ''UNKNOWN''))
      | _ \<Rightarrow>
          (JStr (''HTTP '' @ str_of_int (status_code r) @ '': '' @ text_body r),
           JStr ''UNKNOWN''))"

definition should_retry :: "int \<Rightarrow> nat \<Rightarrow> bool" where
  "should_retry status attempt \<longleftrightarrow>
     attempt < max_retries \<and> (status = 429 \<or> status \<ge> 500)"

text \<open>
  The state of one call of \<open>_request\<close>: the delays slept so far, in order, and the
  number of calls of \<open>self.client.request\<close> made so far.
\<close>

record run =
  sleeps :: "real list"
  attempts :: nat

definition backoff :: "nat \<Rightarrow> real" where
  "backoff attempt = retry_delay * 2 ^ attempt"

text \<open>
  The loop \<open>for attempt in range(self.max_retries + 1)\<close>, over the remaining values of
  \<open>attempt\<close>. \<open>send attempt\<close> is the outcome of the call made in iteration
  \<open>attempt\<close>. A loop that runs out returns \<open>None\<close>.
\<close>

fun request_loop :: "(nat \<Rightarrow> outcome) \<Rightarrow> nat list \<Rightarrow> run \<Rightarrow> (exn + json) \<times> run" where
  "request_loop send [] st = (Inr JNull, st)"
| "request_loop send (attempt # rest) st =
     (let st1 = st\<lparr>attempts := attempts st + 1\<rparr> in
      case send attempt of
        Http r \<Rightarrow>
          if status_code r = 200 then
            (case json_body r of
               Some body \<Rightarrow> (Inr body, st1)
             | None \<Rightarrow> (Inl JSONDecodeError, st1))
          else if status_code r = 401 then
            (Inl (ProductiveAPIError (JStr ''Unauthorized: Invalid API token'') (Some 401)
                    (JStr ''UNAUTHORIZED'')), st1)
          else if status_code r = 404 then
            (Inl (ProductiveAPIError (JStr ''Resource not found'') (Some 404)
                    (JStr ''NOT_FOUND'')), st1)
          else if should_retry (status_code r) attempt then
            request_loop send rest (st1\<lparr>sleeps := sleeps st1 @ [backoff attempt]\<rparr>)
          else
            (let (message, error_code) =
                   parse_error_response r
                     (if status_code r = 429 then ''Rate limit exceeded'' else ''Server error'')
             in (Inl (ProductiveAPIError message (Some (status_code r)) error_code), st1))
      | RequestError e \<Rightarrow>
          if attempt < max_retries then
            request_loop send rest (st1\<lparr>sleeps := sleeps st1 @ [backoff attempt]\<rparr>)
          else
            (Inl (ProductiveAPIError (JStr (''Request failed: '' @ e)) None JNull), st1))"

definition request :: "(nat \<Rightarrow> outcome) \<Rightarrow> (exn + json) \<times> run" where
  "request send = request_loop send [0..<max_retries + 1] \<lparr>sleeps = [], attempts = 0\<rparr>"

text \<open>
  A scripted transport for concrete runs: the outcomes of the successive calls, in
  order; a call beyond the script fails at the transport level.
\<close>

definition replay :: "outcome list \<Rightarrow> nat \<Rightarrow> outcome" where
  "replay os i = (if i < length os then os ! i else RequestError ''connection refused'')"

section \<open>Properties of the API client\<close>

lemma upt_attempts: "[0..<max_retries + 1] = [0, 1, 2, 3]"
  by (simp add: max_retries_def upt_rec)



lemma request_loop_attempts:
  "attempts (snd (request_loop send as st)) \<le> attempts st + length as"
proof (induction as arbitrary: st)
  case Nil
  then show ?case by simp
next
  case (Cons a as)
  have "attempts (snd (request_loop send as
            (st\<lparr>attempts := attempts st + 1, sleeps := sleeps st @ [backoff a]\<rparr>)))
          \<le> attempts st + 1 + length as"
    using Cons.IH [of "st\<lparr>attempts := attempts st + 1, sleeps := sleeps st @ [backoff a]\<rparr>"]
    by simp
  then show ?case
    by (auto simp: Let_def split: outcome.splits option.splits prod.splits)
qed


lemma request_first_failure:
  assumes "send 0 = Http r" "status_code r \<noteq> 200" "status_code r \<noteq> 429" "status_code r < 500"
  shows "request send = (Inl (if status_code r = 401 then ProductiveAPIError (JStr ''Unauthorized: Invalid API token'') (Some 401) (JStr ''UNAUTHORIZED'')
      else if status_code r = 404 then ProductiveAPIError (JStr ''Resource not found'') (Some 404) (JStr ''NOT_FOUND'')
      else ProductiveAPIError (fst (parse_error_response r ''Server error'')) (Some (status_code r)) (snd (parse_error_response r ''Server error''))),
     \<lparr>sleeps = [], attempts = 1\<rparr>)"
  unfolding request_def upt_attempts using assms
  by (simp add: Let_def should_retry_def split: prod.splits)

lemma request_retry_all:
  assumes "\<forall>i<4. \<exists>r. send i = Http r \<and> (status_code r = 429 \<or> 500 \<le> status_code r)"
  shows "\<exists>r. send 3 = Http r \<and>
    request send =
      (Inl (ProductiveAPIError
             (fst (parse_error_response r
                (if status_code r = 429 then ''Rate limit exceeded'' else ''Server error'')))
             (Some (status_code r))
             (snd (parse_error_response r
                (if status_code r = 429 then ''Rate limit exceeded'' else ''Server error'')))),
       \<lparr>sleeps = map backoff [0, 1, 2], attempts = 4\<rparr>)"
proof -
  have "\<exists>r. send 0 = Http r \<and> (status_code r = 429 \<or> 500 \<le> status_code r)"
    using assms by simp
  then obtain r0 where r0: "send 0 = Http r0" "status_code r0 = 429 \<or> 500 \<le> status_code r0"
    by blast
  have "\<exists>r. send 1 = Http r \<and> (status_code r = 429 \<or> 500 \<le> status_code r)"
    using assms by simp
  then obtain r1 where r1: "send 1 = Http r1" "status_code r1 = 429 \<or> 500 \<le> status_code r1"
    by blast
  have "\<exists>r. send 2 = Http r \<and> (status_code r = 429 \<or> 500 \<le> status_code r)"
    using assms by simp
  then obtain r2 where r2: "send 2 = Http r2" "status_code r2 = 429 \<or> 500 \<le> status_code r2"
    by blast
  have "\<exists>r. send 3 = Http r \<and> (status_code r = 429 \<or> 500 \<le> status_code r)"
    using assms by simp
  then obtain r3 where r3: "send 3 = Http r3" "status_code r3 = 429 \<or> 500 \<le> status_code r3"
    by blast
  have s0: "should_retry (status_code r0) 0" "status_code r0 \<noteq> 200" "status_code r0 \<noteq> 401"
      "status_code r0 \<noteq> 404"
    using r0 by (auto simp: should_retry_def max_retries_def)
  have s1: "should_retry (status_code r1) 1" "status_code r1 \<noteq> 200" "status_code r1 \<noteq> 401"
      "status_code r1 \<noteq> 404"
    using r1 by (auto simp: should_retry_def max_retries_def)
  have s2: "should_retry (status_code r2) 2" "status_code r2 \<noteq> 200" "status_code r2 \<noteq> 401"
      "status_code r2 \<noteq> 404"
    using r2 by (auto simp: should_retry_def max_retries_def)
  have s3: "\<not> should_retry (status_code r3) 3" "status_code r3 \<noteq> 200" "status_code r3 \<noteq> 401"
      "status_code r3 \<noteq> 404"
    using r3 by (auto simp: should_retry_def max_retries_def)
  show ?thesis
    unfolding request_def upt_attempts
    using r0(1) r1(1) r2(1) r3(1) s0 s1 s2 s3
    by (simp add: Let_def split: prod.splits)
qed

text \<open>
  C1. Whatever the transport does, \<open>_request\<close> makes at most 4 attempts. When every
  attempt is answered with status 429 or a status from 500 up, it makes exactly 4
  attempts, sleeps \<open>retry_delay * 2 ^ attempt\<close> after attempts 0, 1 and 2, that is 1,
  2 and 4 seconds, and then raises the typed error built from the fourth response.
\<close>

theorem request_retry_bound:
  "attempts (snd (request send)) \<le> 4 \<and>
   ((\<forall>i<4. \<exists>r. send i = Http r \<and> (status_code r = 429 \<or> 500 \<le> status_code r)) \<longrightarrow>
    (\<exists>r. send 3 = Http r \<and>
      request send =
        (Inl (ProductiveAPIError
               (fst (parse_error_response r
                  (if status_code r = 429 then ''Rate limit exceeded'' else ''Server error'')))
               (Some (status_code r))
               (snd (parse_error_response r
                  (if status_code r = 429 then ''Rate limit exceeded'' else ''Server error'')))),
         \<lparr>sleeps = [retry_delay * 2 ^ 0, retry_delay * 2 ^ 1, retry_delay * 2 ^ 2],
          attempts = 4\<rparr>)) \<and>
    [retry_delay * 2 ^ 0, retry_delay * 2 ^ 1, retry_delay * 2 ^ 2] = [1, 2, 4])"
proof (intro conjI impI)
  show "attempts (snd (request send)) \<le> 4"
    using request_loop_attempts [of send "[0, 1, 2, 3]" "\<lparr>sleeps = [], attempts = 0\<rparr>"]
    unfolding request_def upt_attempts by simp
next
  assume "\<forall>i<4. \<exists>r. send i = Http r \<and> (status_code r = 429 \<or> 500 \<le> status_code r)"
  from request_retry_all [OF this]
  show "\<exists>r. send 3 = Http r \<and>
      request send =
        (Inl (ProductiveAPIError
               (fst (parse_error_response r
                  (if status_code r = 429 then ''Rate limit exceeded'' else ''Server error'')))
               (Some (status_code r))
               (snd (parse_error_response r
                  (if status_code r = 429 then ''Rate limit exceeded'' else ''Server error'')))),
         \<lparr>sleeps = [retry_delay * 2 ^ 0, retry_delay * 2 ^ 1, retry_delay * 2 ^ 2],
          attempts = 4\<rparr>)"
    by (simp add: backoff_def)
next
  show "[retry_delay * 2 ^ 0, retry_delay * 2 ^ 1, retry_delay * 2 ^ 2] = [1, 2, 4]"
    by (simp add: retry_delay_def)
qed

lemma less_4_cases: "(i::nat) < 4 \<Longrightarrow> i = 0 \<or> i = 1 \<or> i = 2 \<or> i = 3"
  by arith

theorem request_retry_bound_witness:
  "request (replay
      [Http \<lparr>status_code = 500, json_body = None, text_body = []\<rparr>,
       Http \<lparr>status_code = 503, json_body = None, text_body = []\<rparr>,
       Http \<lparr>status_code = 429, json_body = None, text_body = []\<rparr>,
       Http \<lparr>status_code = 502,
             json_body = Some (JObj [(''message'', JStr ''bad gateway'')]),
             text_body = []\<rparr>])
   = (Inl (ProductiveAPIError (JStr ''bad gateway'') (Some 502) (JStr ''UNKNOWN'')),
      \<lparr>sleeps = [1, 2, 4], attempts = 4\<rparr>)"
proof -
  let ?send = "replay
      [Http \<lparr>status_code = 500, json_body = None, text_body = []\<rparr>,
       Http \<lparr>status_code = 503, json_body = None, text_body = []\<rparr>,
       Http \<lparr>status_code = 429, json_body = None, text_body = []\<rparr>,
       Http \<lparr>status_code = 502,
             json_body = Some (JObj [(''message'', JStr ''bad gateway'')]),
             text_body = []\<rparr>]"
  have h: "\<forall>i<4. \<exists>r. ?send i = Http r \<and> (status_code r = 429 \<or> 500 \<le> status_code r)"
  proof (intro allI impI)
    fix i :: nat
    assume "i < 4"
    from less_4_cases [OF this]
    show "\<exists>r. ?send i = Http r \<and> (status_code r = 429 \<or> 500 \<le> status_code r)"
      by (auto simp: replay_def)
  qed
  have s3: "?send 3 = Http \<lparr>status_code = 502,
             json_body = Some (JObj [(''message'', JStr ''bad gateway'')]),
             text_body = []\<rparr>"
    by (simp add: replay_def)
  from request_retry_bound [of ?send] h s3
  show ?thesis
    by (simp add: parse_error_response_def py_get_default_def retry_delay_def)
qed

text \<open>
  C2, as the code has it. A response with a 4xx status other than 429 ends
  \<open>_request\<close> after one attempt and no sleep: 401 raises \<open>UNAUTHORIZED\<close>, 404 raises
  \<open>NOT_FOUND\<close>, and any other such status raises the error read from the body. When the
  body is a JSON mapping, the message defaults to "Server error" and the error code to
  "UNKNOWN" for a key the mapping lacks; when the body is not JSON, or not a mapping,
  the message is "HTTP <status>: <body text>" and the error code is "UNKNOWN".
\<close>

theorem request_client_error:
  assumes "send 0 = Http r"
    and "400 \<le> status_code r" and "status_code r < 500" and "status_code r \<noteq> 429"
  shows "request send =
    (Inl (if status_code r = 401 then
            ProductiveAPIError (JStr ''Unauthorized: Invalid API token'') (Some 401)
              (JStr ''UNAUTHORIZED'')
          else if status_code r = 404 then
            ProductiveAPIError (JStr ''Resource not found'') (Some 404) (JStr ''NOT_FOUND'')
          else
            (case json_body r of
               Some (JObj error_data) \<Rightarrow>
                 ProductiveAPIError
                   (py_get_default error_data ''message'' (JStr ''Server error''))
                   (Some (status_code r))
                   (py_get_default error_data ''errorCode'' (JStr ''UNKNOWN''))
             | _ \<Rightarrow>
                 ProductiveAPIError
                   (JStr (''HTTP '' @ str_of_int (status_code r) @ '': '' @ text_body r))
                   (Some (status_code r))
                   (JStr ''UNKNOWN''))),
     \<lparr>sleeps = [], attempts = 1\<rparr>)"
proof -
  have "status_code r \<noteq> 200"
    using assms(2) by simp
  from request_first_failure [of send r] assms this
  show ?thesis
    by (simp add: parse_error_response_def split: option.splits json.splits)
qed

theorem request_client_error_witness:
  "request (replay
      [Http \<lparr>status_code = 422,
             json_body = Some (JObj [(''errorCode'', JStr ''INVALID'')]),
             text_body = []\<rparr>])
   = (Inl (ProductiveAPIError (JStr ''Server error'') (Some 422) (JStr ''INVALID'')),
      \<lparr>sleeps = [], attempts = 1\<rparr>)"
  using request_client_error
    [of "replay [Http \<lparr>status_code = 422,
             json_body = Some (JObj [(''errorCode'', JStr ''INVALID'')]),
             text_body = []\<rparr>]"
        "\<lparr>status_code = 422,
             json_body = Some (JObj [(''errorCode'', JStr ''INVALID'')]),
             text_body = []\<rparr>"]
  by (simp add: replay_def py_get_default_def)

text \<open>
  The claim C2 as stated fails: a 400 response whose body is not JSON raises an error
  whose message is "HTTP 400: oops", not "Server error".
\<close>

theorem request_client_error_unparseable_message:
  "request (replay [Http \<lparr>status_code = 400, json_body = None, text_body = ''oops''\<rparr>])
     = (Inl (ProductiveAPIError (JStr ''HTTP 400: oops'') (Some 400) (JStr ''UNKNOWN'')),
        \<lparr>sleeps = [], attempts = 1\<rparr>)
   \<and> JStr ''HTTP 400: oops'' \<noteq> JStr ''Server error''"
  unfolding request_def upt_attempts
  by (simp add: replay_def Let_def should_retry_def parse_error_response_def str_of_int_def
      str_of_nat.simps)



section \<open>The response sanitizer (utils.py)\<close>

text \<open>
  What the sanitizer takes from outside the repository's code: \<open>config.organization\<close>
  as an f-string renders it, \<open>bleach.clean(text, tags=[], strip=True)\<close>, and Python's
  \<open>str\<close> of a list or a dict.
\<close>

record env =
  organization :: string
  bleach_clean :: "string \<Rightarrow> string"
  str_container :: "json \<Rightarrow> string"

text \<open>How an f-string renders a JSON value.\<close>

definition py_str :: "env \<Rightarrow> json \<Rightarrow> string" where
  "py_str env v =
     (case v of
        JNull \<Rightarrow> ''None''
      | JBool b \<Rightarrow> (if b then ''True'' else ''False'')
      | JNum n \<Rightarrow> str_of_int n
      | JStr s \<Rightarrow> s
      | _ \<Rightarrow> str_container env v)"

definition get_webapp_url :: "env \<Rightarrow> json \<Rightarrow> json \<Rightarrow> string" where
  "get_webapp_url env resource_type resource_id =
     ''https://app.productive.io/'' @ organization env @ ''/'' @ py_str env resource_type
       @ ''/'' @ py_str env resource_id"

definition remove_fields :: "(string \<times> string list) list" where
  "remove_fields =
     [(''tasks'', [''creation_method_id'', ''email_key'', ''placement'']),
      (''comments'', []),
      (''todos'', []),
      (''pages'', [''preferences'', ''cover_image_meta'', ''custom_fields'', ''version_number'',
                   ''position'']),
      (''page'', [''preferences'', ''cover_image_meta'', ''custom_fields'', ''version_number'',
                  ''position'']),
      (''attachments'', [''attachable_type'', ''attachable_id'']),
      (''projects'', [''sample_data'', ''template'', ''time_on_tasks'', ''project_color_id'',
                      ''duplication_status'', ''project_type_id'', ''preferences'', ''number''])]"

definition html_fields :: "(string \<times> string list) list" where
  "html_fields =
     [(''tasks'', [''description'']),
      (''comments'', [''body'']),
      (''todos'', [''description'']),
      (''pages'', []),
      (''page'', [])]"

text \<open>
  \<open>table.get(obj_type, [])\<close> on a table keyed by strings: a list or a dict as the key
  is unhashable and raises \<open>TypeError\<close>; any other value that is not a key of the table
  yields the default.
\<close>

definition table_get :: "(string \<times> string list) list \<Rightarrow> json \<Rightarrow> error + string list" where
  "table_get table obj_type =
     (case obj_type of
        JStr t \<Rightarrow> Inr (case map_of table t of None \<Rightarrow> [] | Some names \<Rightarrow> names)
      | JArr xs \<Rightarrow> Inl TypeError
      | JObj kvs \<Rightarrow> Inl TypeError
      | _ \<Rightarrow> Inr [])"

definition strip_html :: "env \<Rightarrow> string \<Rightarrow> (string \<times> json) list \<Rightarrow> (string \<times> json) list" where
  "strip_html env field filtered =
     (case map_of filtered field of
        Some (JStr s) \<Rightarrow> AList.update field (JStr (bleach_clean env s)) filtered
      | _ \<Rightarrow> filtered)"

definition filter_attributes ::
  "env \<Rightarrow> (string \<times> json) list \<Rightarrow> json \<Rightarrow> error + (string \<times> json) list" where
  "filter_attributes env attributes obj_type =
     (case table_get remove_fields obj_type of
        Inl e \<Rightarrow> Inl e
      | Inr removed \<Rightarrow>
          (case table_get html_fields obj_type of
             Inl e \<Rightarrow> Inl e
           | Inr html \<Rightarrow> Inr (fold (strip_html env) html (fold AList.delete removed attributes))))"

definition essential_fields :: "string list" where
  "essential_fields =
     [''title'', ''task_number'', ''closed'', ''created_at'', ''updated_at'', ''initial_estimate'',
      ''remaining_time'', ''worked_time'', ''billable_time'', ''closed_at'', ''type_id'',
      ''private'', ''workflow_status_name'']"

text \<open>\<open>attributes.items()\<close> raises \<open>AttributeError\<close> on anything but a dict.\<close>

definition filter_task_list_attributes :: "json \<Rightarrow> error + (string \<times> json) list" where
  "filter_task_list_attributes attributes =
     (case attributes of
        JObj attrs \<Rightarrow> Inr (filter (\<lambda>kv. fst kv \<in> set essential_fields) attrs)
      | _ \<Rightarrow> Inl AttributeError)"

text \<open>
  \<open>dict(meta)\<close>. A dict is copied. \<open>None\<close>, a bool and a number are not iterable
  (\<open>TypeError\<close>). A string or a list is read as a sequence of key/value pairs: each
  element must itself be a sequence of length 2 (a list of two values, a string of two
  characters, or a dict with two keys, which yields its two keys), else \<open>ValueError\<close>, or
  \<open>TypeError\<close> for an element that is no sequence or a key that is unhashable.
\<close>

fun pair_of :: "json \<Rightarrow> error + (string \<times> json)" where
  "pair_of (JArr [k, v]) =
     (case k of
        JStr s \<Rightarrow> Inr (s, v)
      | JArr xs \<Rightarrow> Inl TypeError
      | JObj kvs \<Rightarrow> Inl TypeError
      | _ \<Rightarrow> Inl NonStringKey)"
| "pair_of (JArr xs) = Inl ValueError"
| "pair_of (JStr [a, b]) = Inr ([a], JStr [b])"
| "pair_of (JStr s) = Inl ValueError"
| "pair_of (JObj [(k1, v1), (k2, v2)]) = Inr (k1, JStr k2)"
| "pair_of (JObj kvs) = Inl ValueError"
| "pair_of v = Inl TypeError"

fun dict_of_pairs :: "json list \<Rightarrow> (string \<times> json) list \<Rightarrow> error + (string \<times> json) list" where
  "dict_of_pairs [] acc = Inr acc"
| "dict_of_pairs (x # xs) acc =
     (case pair_of x of
        Inl e \<Rightarrow> Inl e
      | Inr (k, v) \<Rightarrow> dict_of_pairs xs (AList.update k v acc))"

definition py_dict :: "json \<Rightarrow> error + (string \<times> json) list" where
  "py_dict v =
     (case v of
        JObj d \<Rightarrow> Inr d
      | JArr xs \<Rightarrow> dict_of_pairs xs []
      | JStr s \<Rightarrow> (if s = [] then Inr [] else Inl ValueError)
      | _ \<Rightarrow> Inl TypeError)"

definition clean_meta_object :: "json \<Rightarrow> error + (string \<times> json) list" where
  "clean_meta_object meta =
     (case py_dict meta of
        Inl e \<Rightarrow> Inl e
      | Inr cleaned \<Rightarrow>
          Inr (AList.delete ''settings''
                 (if map_of cleaned ''included'' = Some (JBool False)
                  then AList.delete ''included'' cleaned else cleaned)))"

text \<open>
  The steps of the loop body of \<open>remove_null_and_empty\<close> over the items of a dict:
  the organization relationship is dropped before the value is cleaned, the attributes
  of a cleaned value are filtered by the \<open>type\<close> of the enclosing dict, and the entry is
  stored (a \<open>meta\<close> dict only when something is left of it).
\<close>

definition drop_organization :: "string \<Rightarrow> json \<Rightarrow> json" where
  "drop_organization key value =
     (case value of
        JObj rel \<Rightarrow>
          if key = ''relationships'' then JObj (filter (\<lambda>kv. fst kv \<noteq> ''organization'') rel)
          else value
      | _ \<Rightarrow> value)"

definition filter_if_attributes ::
  "env \<Rightarrow> (string \<times> json) list \<Rightarrow> string \<Rightarrow> json \<Rightarrow> error + json" where
  "filter_if_attributes env obj key cleaned_value =
     (case cleaned_value of
        JObj attrs \<Rightarrow>
          if key = ''attributes'' then
            (case filter_attributes env attrs (py_get obj ''type'') of
               Inl e \<Rightarrow> Inl e
             | Inr filtered \<Rightarrow> Inr (JObj filtered))
          else Inr cleaned_value
      | _ \<Rightarrow> Inr cleaned_value)"

definition store_entry ::
  "string \<Rightarrow> json \<Rightarrow> (string \<times> json) list \<Rightarrow> error + (string \<times> json) list" where
  "store_entry key cleaned_value result =
     (case cleaned_value of
        JObj m \<Rightarrow>
          if key = ''meta'' then
            (case clean_meta_object cleaned_value of
               Inl e \<Rightarrow> Inl e
             | Inr cleaned_meta \<Rightarrow>
                 Inr (if cleaned_meta \<noteq> [] then (key, JObj cleaned_meta) # result else result))
          else Inr ((key, cleaned_value) # result)
      | _ \<Rightarrow> Inr ((key, cleaned_value) # result))"

text \<open>
  \<open>remove_null_and_empty\<close>, with its two loops: \<open>clean_items\<close> over the items of a
  list, \<open>clean_entries\<close> over the items of the dict \<open>obj\<close>. The keys of a dict are
  pairwise distinct, so every \<open>result[key] = ...\<close> adds a new entry after the ones
  stored before it.
\<close>

function remove_null_and_empty :: "env \<Rightarrow> json \<Rightarrow> error + json"
  and clean_items :: "env \<Rightarrow> json list \<Rightarrow> error + json list"
  and clean_entries ::
    "env \<Rightarrow> (string \<times> json) list \<Rightarrow> (string \<times> json) list \<Rightarrow> error + (string \<times> json) list"
where
  "remove_null_and_empty env (JObj obj) =
     (case clean_entries env obj obj of
        Inl e \<Rightarrow> Inl e
      | Inr result \<Rightarrow> Inr (JObj result))"
| "remove_null_and_empty env (JArr xs) =
     (case clean_items env xs of
        Inl e \<Rightarrow> Inl e
      | Inr result \<Rightarrow> Inr (JArr result))"
| "remove_null_and_empty env JNull = Inr JNull"
| "remove_null_and_empty env (JBool b) = Inr (JBool b)"
| "remove_null_and_empty env (JNum n) = Inr (JNum n)"
| "remove_null_and_empty env (JStr s) = Inr (JStr s)"
| "clean_items env [] = Inr []"
| "clean_items env (item # rest) =
     (case remove_null_and_empty env item of
        Inl e \<Rightarrow> Inl e
      | Inr cleaned_item \<Rightarrow>
          (case clean_items env rest of
             Inl e \<Rightarrow> Inl e
           | Inr result \<Rightarrow>
               Inr (if is_empty_value cleaned_item then result else cleaned_item # result)))"
| "clean_entries env obj [] = Inr []"
| "clean_entries env obj ((key, value) # rest) =
     (if key = ''links'' then clean_entries env obj rest
      else
        (case remove_null_and_empty env (drop_organization key value) of
           Inl e \<Rightarrow> Inl e
         | Inr cleaned_value \<Rightarrow>
             if is_empty_value cleaned_value then clean_entries env obj rest
             else
               (case filter_if_attributes env obj key cleaned_value of
                  Inl e \<Rightarrow> Inl e
                | Inr filtered_value \<Rightarrow>
                    (case clean_entries env obj rest of
                       Inl e \<Rightarrow> Inl e
                     | Inr result \<Rightarrow> store_entry key filtered_value result))))"
  by pat_completeness auto
termination
proof (relation "measure (\<lambda>x. case x of
    Inl (env, v) \<Rightarrow> size v
  | Inr (Inl (env, xs)) \<Rightarrow> size_list size xs
  | Inr (Inr (env, obj, kvs)) \<Rightarrow> size_list (size_prod (\<lambda>k. 0) size) kvs)")
  fix key :: string and v :: json
  have "size (drop_organization key v) \<le> size v"
  proof (cases v)
    case (JObj rel)
    have "size_list (size_prod (\<lambda>k. 0) size) (filter (\<lambda>kv. fst kv \<noteq> ''organization'') rel)
        \<le> size_list (size_prod (\<lambda>k. 0) size) rel"
      by (induction rel) auto
    with JObj show ?thesis by (simp add: drop_organization_def)
  qed (simp_all add: drop_organization_def)
  then show "\<And>env obj rest.
       key \<noteq> ''links'' \<Longrightarrow>
       (Inl (env, drop_organization key v), Inr (Inr (env, obj, (key, v) # rest)))
       \<in> measure (\<lambda>x. case x of
    Inl (env, v) \<Rightarrow> size v
  | Inr (Inl (env, xs)) \<Rightarrow> size_list size xs
  | Inr (Inr (env, obj, kvs)) \<Rightarrow> size_list (size_prod (\<lambda>k. 0) size) kvs)"
    by simp
qed simp_all

text \<open>
  Python's \<open>==\<close> on JSON values: a bool equals the number 0 or 1 it stands for, lists
  are compared item by item, dicts entry by entry in any order.
\<close>

fun py_eq :: "json \<Rightarrow> json \<Rightarrow> bool" where
  "py_eq JNull b = (b = JNull)"
| "py_eq (JBool x) b =
     (case b of
        JBool y \<Rightarrow> x = y
      | JNum n \<Rightarrow> n = (if x then 1 else 0)
      | _ \<Rightarrow> False)"
| "py_eq (JNum m) b =
     (case b of
        JNum n \<Rightarrow> m = n
      | JBool y \<Rightarrow> m = (if y then 1 else 0)
      | _ \<Rightarrow> False)"
| "py_eq (JStr s) b = (b = JStr s)"
| "py_eq (JArr xs) b =
     (case b of
        JArr ys \<Rightarrow> list_all2 py_eq xs ys
      | _ \<Rightarrow> False)"
| "py_eq (JObj kvs) b =
     (case b of
        JObj kvs' \<Rightarrow>
          length kvs = length kvs' \<and>
          (\<forall>kv \<in> set kvs.
             case map_of kvs' (fst kv) of
               None \<Rightarrow> False
             | Some v' \<Rightarrow> py_eq (snd kv) v')
      | _ \<Rightarrow> False)"

text \<open>
  \<open>_add_webapp_url\<close>: the item with \<open>webapp_url\<close> set when it is a dict whose
  \<open>type\<close> and \<open>id\<close> are both truthy, the item itself otherwise.
\<close>

definition add_webapp_url :: "env \<Rightarrow> json \<Rightarrow> json" where
  "add_webapp_url env item =
     (case item of
        JObj d \<Rightarrow>
          (let resource_type = py_get d ''type''; resource_id = py_get d ''id'' in
           if truthy resource_type \<and> truthy resource_id then
             JObj (AList.update ''webapp_url''
                     (JStr (get_webapp_url env resource_type resource_id)) d)
           else item)
      | _ \<Rightarrow> item)"

text \<open>
  The search loop of \<open>_extract_workflow_status_name\<close> over \<open>included\<close>: the first
  dict of type \<open>workflow_statuses\<close> with the wanted id decides; \<open>.get\<close> on its
  \<open>attributes\<close> raises when they are not a dict.
\<close>

fun find_workflow_status :: "json \<Rightarrow> json list \<Rightarrow> error + json" where
  "find_workflow_status workflow_status_id [] = Inr JNull"
| "find_workflow_status workflow_status_id (included_item # rest) =
     (case included_item of
        JObj d \<Rightarrow>
          if py_get d ''type'' = JStr ''workflow_statuses''
             \<and> py_eq (py_get d ''id'') workflow_status_id
          then
            (case py_get_default d ''attributes'' (JObj []) of
               JObj attributes \<Rightarrow> Inr (py_get attributes ''name'')
             | _ \<Rightarrow> Inl AttributeError)
          else find_workflow_status workflow_status_id rest
      | _ \<Rightarrow> find_workflow_status workflow_status_id rest)"

text \<open>
  \<open>_extract_workflow_status_name\<close>; the result \<open>JNull\<close> is Python's \<open>None\<close>.
  \<open>.get\<close> on \<open>relationships\<close> or on the \<open>workflow_status\<close> entry raises when the
  value is not a dict.
\<close>

definition extract_workflow_status_name :: "json \<Rightarrow> json \<Rightarrow> error + json" where
  "extract_workflow_status_name item included =
     (case item of
        JObj d \<Rightarrow>
          (case included of
             JArr included_items \<Rightarrow>
               (case py_get_default d ''relationships'' (JObj []) of
                  JObj relationships \<Rightarrow>
                    (case py_get_default relationships ''workflow_status'' (JObj []) of
                       JObj workflow_status_rel \<Rightarrow>
                         (case py_get workflow_status_rel ''data'' of
                            JObj workflow_status_data \<Rightarrow>
                              if workflow_status_data = [] then Inr JNull
                              else
                                (let workflow_status_id = py_get workflow_status_data ''id'' in
                                 if \<not> truthy workflow_status_id then Inr JNull
                                 else find_workflow_status workflow_status_id included_items)
                          | _ \<Rightarrow> Inr JNull)
                     | _ \<Rightarrow> Inl AttributeError)
                | _ \<Rightarrow> Inl AttributeError)
           | _ \<Rightarrow> Inr JNull)
      | _ \<Rightarrow> Inr JNull)"

text \<open>
  What \<open>filter_response\<close> does to one item of \<open>data\<close>, in both of its branches: the
  web URL, then, for a task, the name of its workflow status. \<open>item.get\<close> raises on an
  item that is not a dict, and the assignment into \<open>item["attributes"]\<close> raises when
  the attributes are not a dict.
\<close>

definition enrich_item :: "env \<Rightarrow> json \<Rightarrow> json \<Rightarrow> error + json" where
  "enrich_item env included item =
     (case add_webapp_url env item of
        JObj d \<Rightarrow>
          if py_get d ''type'' = JStr ''tasks'' then
            (case extract_workflow_status_name (JObj d) included of
               Inl e \<Rightarrow> Inl e
             | Inr workflow_status_name \<Rightarrow>
                 if truthy workflow_status_name then
                   (case map_of d ''attributes'' of
                      None \<Rightarrow> Inr (JObj d)
                    | Some (JObj attributes) \<Rightarrow>
                        Inr (JObj (AList.update ''attributes''
                               (JObj (AList.update ''workflow_status_name'' workflow_status_name
                                        attributes)) d))
                    | Some _ \<Rightarrow> Inl TypeError)
                 else Inr (JObj d))
          else Inr (JObj d)
      | _ \<Rightarrow> Inl AttributeError)"

fun enrich_items :: "env \<Rightarrow> json \<Rightarrow> json list \<Rightarrow> error + json list" where
  "enrich_items env included [] = Inr []"
| "enrich_items env included (item # rest) =
     (case enrich_item env included item of
        Inl e \<Rightarrow> Inl e
      | Inr item' \<Rightarrow>
          (case enrich_items env included rest of
             Inl e \<Rightarrow> Inl e
           | Inr rest' \<Rightarrow> Inr (item' # rest')))"

definition filter_response :: "env \<Rightarrow> json \<Rightarrow> error + json" where
  "filter_response env response =
     (case remove_null_and_empty env response of
        Inl e \<Rightarrow> Inl e
      | Inr filtered \<Rightarrow>
          (case filtered of
             JObj f \<Rightarrow>
               (case map_of f ''data'' of
                  None \<Rightarrow> Inr filtered
                | Some data \<Rightarrow>
                    (let included =
                       (case response of
                          JObj r \<Rightarrow> py_get_default r ''included'' (JArr [])
                        | _ \<Rightarrow> JArr [])
                     in case data of
                          JObj d \<Rightarrow>
                            (case enrich_item env included data of
                               Inl e \<Rightarrow> Inl e
                             | Inr item \<Rightarrow> Inr (JObj (AList.update ''data'' item f)))
                        | JArr items \<Rightarrow>
                            (case enrich_items env included items of
                               Inl e \<Rightarrow> Inl e
                             | Inr items' \<Rightarrow> Inr (JObj (AList.update ''data'' (JArr items') f)))
                        | _ \<Rightarrow> Inr filtered))
           | _ \<Rightarrow> Inr filtered))"

text \<open>
  The loop body of \<open>filter_task_list_response\<close> for one item of \<open>data\<close>: a task is
  rebuilt from its id, its type, its essential attributes and its web URL; any other
  item is kept as it is.
\<close>

definition task_list_item :: "env \<Rightarrow> json \<Rightarrow> json \<Rightarrow> error + json" where
  "task_list_item env included item =
     (case item of
        JObj d \<Rightarrow>
          if py_get d ''type'' = JStr ''tasks'' then
            (let filtered_item = [(''id'', py_get d ''id''), (''type'', py_get d ''type'')] in
             case map_of d ''attributes'' of
               None \<Rightarrow> Inr (add_webapp_url env (JObj filtered_item))
             | Some attributes \<Rightarrow>
                 (case filter_task_list_attributes attributes of
                    Inl e \<Rightarrow> Inl e
                  | Inr attrs \<Rightarrow>
                      (case extract_workflow_status_name item included of
                         Inl e \<Rightarrow> Inl e
                       | Inr workflow_status_name \<Rightarrow>
                           Inr (add_webapp_url env
                                  (JObj (filtered_item @
                                     [(''attributes'',
                                       JObj (if truthy workflow_status_name
                                             then AList.update ''workflow_status_name''
                                                    workflow_status_name attrs
                                             else attrs))]))))))
          else Inr item
      | _ \<Rightarrow> Inr item)"

fun task_list_items :: "env \<Rightarrow> json \<Rightarrow> json list \<Rightarrow> error + json list" where
  "task_list_items env included [] = Inr []"
| "task_list_items env included (item # rest) =
     (case task_list_item env included item of
        Inl e \<Rightarrow> Inl e
      | Inr item' \<Rightarrow>
          (case task_list_items env included rest of
             Inl e \<Rightarrow> Inl e
           | Inr rest' \<Rightarrow> Inr (item' # rest')))"

text \<open>
  The tail shared by the two list filters: \<open>meta\<close>, when the response has it, is
  cleaned and stored after \<open>data\<close>, and the result is pruned.
\<close>

definition with_meta_and_prune ::
  "env \<Rightarrow> (string \<times> json) list \<Rightarrow> (string \<times> json) list \<Rightarrow> error + json" where
  "with_meta_and_prune env response filtered =
     (case map_of response ''meta'' of
        None \<Rightarrow> remove_null_and_empty env (JObj filtered)
      | Some meta \<Rightarrow>
          (case clean_meta_object meta of
             Inl e \<Rightarrow> Inl e
           | Inr cleaned \<Rightarrow>
               remove_null_and_empty env (JObj (filtered @ [(''meta'', JObj cleaned)]))))"

definition filter_task_list_response :: "env \<Rightarrow> json \<Rightarrow> error + json" where
  "filter_task_list_response env response =
     (case response of
        JObj r \<Rightarrow>
          (let included = py_get_default r ''included'' (JArr []) in
           case map_of r ''data'' of
             Some (JArr items) \<Rightarrow>
               (case task_list_items env included items of
                  Inl e \<Rightarrow> Inl e
                | Inr filtered_data \<Rightarrow>
                    with_meta_and_prune env r [(''data'', JArr filtered_data)])
           | _ \<Rightarrow> with_meta_and_prune env r [])
      | _ \<Rightarrow> Inr response)"

definition page_list_item :: "env \<Rightarrow> json \<Rightarrow> json" where
  "page_list_item env item =
     (case item of
        JObj d \<Rightarrow>
          if py_get d ''type'' = JStr ''pages'' then
            (let new_item = [(''id'', py_get d ''id''), (''type'', py_get d ''type'')] in
             case py_get_default d ''attributes'' (JObj []) of
               JObj attrs \<Rightarrow>
                 add_webapp_url env
                   (JObj (new_item @ [(''attributes'', JObj (AList.delete ''body'' attrs))]))
             | _ \<Rightarrow> add_webapp_url env (JObj new_item))
          else item
      | _ \<Rightarrow> item)"

definition filter_page_list_response :: "env \<Rightarrow> json \<Rightarrow> error + json" where
  "filter_page_list_response env response =
     (case response of
        JObj r \<Rightarrow>
          (case map_of r ''data'' of
             Some (JArr items) \<Rightarrow>
               with_meta_and_prune env r [(''data'', JArr (map (page_list_item env) items))]
           | _ \<Rightarrow> with_meta_and_prune env r [])
      | _ \<Rightarrow> Inr response)"

section \<open>The single-task tool (tools\_read.py)\<close>







section \<open>Concrete runs of the sanitizer\<close>

text \<open>
  A configuration for concrete runs: the organization \<open>acme\<close>; the inputs below hold no
  markup and no list or dict in a \<open>type\<close> or \<open>id\<close>, so \<open>bleach.clean\<close> and \<open>str\<close>
  of a container are never consulted on anything they would change.
\<close>

definition demo_env :: env where
  "demo_env = \<lparr>organization = ''acme'', bleach_clean = (\<lambda>s. s), str_container = (\<lambda>v. [])\<rparr>"

text \<open>
  C4. A task whose only attribute is on the deny-list of its type keeps an empty
  \<open>attributes\<close> mapping in the pruned output: the emptiness test runs before
  \<open>_filter_attributes\<close>, and nothing tests the filtered mapping (as is done for
  \<open>meta\<close>).
\<close>

theorem remove_null_and_empty_keeps_emptied_attributes:
  "remove_null_and_empty demo_env
     (JObj [(''type'', JStr ''tasks''), (''attributes'', JObj [(''email_key'', JStr ''k'')])])
   = Inr (JObj [(''type'', JStr ''tasks''), (''attributes'', JObj [])])"
  by code_simp

text \<open>
  C3. \<open>filter_response\<close> is not idempotent on that task: the first pass leaves the
  empty \<open>attributes\<close> mapping, the second pass drops it.
\<close>

theorem filter_response_not_idempotent:
  "filter_response demo_env
     (JObj [(''data'', JObj [(''type'', JStr ''tasks''), (''id'', JStr ''7''),
        (''attributes'', JObj [(''email_key'', JStr ''k'')])])])
   = Inr (JObj [(''data'', JObj [(''type'', JStr ''tasks''), (''id'', JStr ''7''),
        (''attributes'', JObj []),
        (''webapp_url'', JStr ''https://app.productive.io/acme/tasks/7'')])])
   \<and> filter_response demo_env
     (JObj [(''data'', JObj [(''type'', JStr ''tasks''), (''id'', JStr ''7''),
        (''attributes'', JObj []),
        (''webapp_url'', JStr ''https://app.productive.io/acme/tasks/7'')])])
   = Inr (JObj [(''data'', JObj [(''type'', JStr ''tasks''), (''id'', JStr ''7''),
        (''webapp_url'', JStr ''https://app.productive.io/acme/tasks/7'')])])"
  by code_simp

text \<open>
  C8. The sanitizer raises on documents of unexpected shape: \<open>filter_response\<close> on a
  \<open>data\<close> list with an item that is not a mapping (\<open>item.get\<close>),
  \<open>filter_task_list_response\<close> on a \<open>meta\<close> that is \<open>null\<close> (\<open>dict(meta)\<close>) and on
  task attributes that are \<open>null\<close> (\<open>attributes.items()\<close>), and
  \<open>remove_null_and_empty\<close> itself on a mapping with attributes whose \<open>type\<close> is a list
  (an unhashable key for the field tables).
\<close>

theorem sanitizer_raises_on_unexpected_shape:
  "filter_response demo_env (JObj [(''data'', JArr [JNum 1])]) = Inl AttributeError
   \<and> filter_task_list_response demo_env (JObj [(''meta'', JNull)]) = Inl TypeError
   \<and> filter_task_list_response demo_env
       (JObj [(''data'', JArr [JObj [(''type'', JStr ''tasks''), (''attributes'', JNull)]])])
     = Inl AttributeError
   \<and> remove_null_and_empty demo_env
       (JObj [(''type'', JArr [JNum 1]), (''attributes'', JObj [(''a'', JNum 1)])])
     = Inl TypeError"
  by code_simp



section \<open>Properties of the pruner\<close>

lemma clean_entries_step:
  assumes "clean_entries env obj ((k, v) # rest) = Inr out"
  shows "\<exists>out'. clean_entries env obj rest = Inr out' \<and>
     (k = ''links'' \<and> out = out' \<or>
      k \<noteq> ''links'' \<and>
        (\<exists>c. remove_null_and_empty env (drop_organization k v) = Inr c \<and>
           (is_empty_value c \<and> out = out' \<or>
            \<not> is_empty_value c \<and>
              (\<exists>f. filter_if_attributes env obj k c = Inr f \<and> store_entry k f out' = Inr out))))"
  using assms by (auto split: if_splits sum.splits)

lemma filter_if_attributes_other:
  "k \<noteq> ''attributes'' \<Longrightarrow> filter_if_attributes env obj k c = Inr c"
  by (simp add: filter_if_attributes_def split: json.splits)

lemma filter_if_attributes_scalar:
  "(\<And>m. c \<noteq> JObj m) \<Longrightarrow> filter_if_attributes env obj k c = Inr c"
  by (simp add: filter_if_attributes_def split: json.splits)

lemma store_entry_other:
  "k \<noteq> ''meta'' \<Longrightarrow> store_entry k f out = Inr ((k, f) # out)"
  by (simp add: store_entry_def split: json.splits)

lemma store_entry_scalar:
  "(\<And>m. f \<noteq> JObj m) \<Longrightarrow> store_entry k f out = Inr ((k, f) # out)"
  by (simp add: store_entry_def split: json.splits)

lemma drop_organization_other:
  "k \<noteq> ''relationships'' \<Longrightarrow> drop_organization k v = v"
  by (simp add: drop_organization_def split: json.splits)

lemma store_entry_keys:
  "store_entry k f out' = Inr out \<Longrightarrow> fst ` set out \<subseteq> insert k (fst ` set out')"
  by (auto simp: store_entry_def split: json.splits if_splits sum.splits)

lemma store_entry_tail:
  "store_entry k f out' = Inr out \<Longrightarrow> out = out' \<or> (\<exists>f'. out = (k, f') # out')"
  by (auto simp: store_entry_def split: json.splits if_splits sum.splits)

lemma clean_entries_keys:
  "clean_entries env obj kvs = Inr out \<Longrightarrow> fst ` set out \<subseteq> fst ` set kvs - {''links''}"
proof (induction kvs arbitrary: out)
  case Nil
  then show ?case by simp
next
  case (Cons kv kvs)
  obtain k v where kv: "kv = (k, v)" by (cases kv)
  from clean_entries_step [OF Cons.prems [unfolded kv]]
  obtain out' where out': "clean_entries env obj kvs = Inr out'"
    and cases: "k = ''links'' \<and> out = out' \<or>
      k \<noteq> ''links'' \<and>
        (\<exists>c. remove_null_and_empty env (drop_organization k v) = Inr c \<and>
           (is_empty_value c \<and> out = out' \<or>
            \<not> is_empty_value c \<and>
              (\<exists>f. filter_if_attributes env obj k c = Inr f \<and> store_entry k f out' = Inr out)))"
    by blast
  from Cons.IH [OF out'] have ih: "fst ` set out' \<subseteq> fst ` set kvs - {''links''}" .
  from cases show ?case
  proof (elim disjE conjE exE)
    assume "k = ''links''" "out = out'"
    with ih kv show ?thesis by auto
  next
    fix c assume "k \<noteq> ''links''" "is_empty_value c" "out = out'"
    with ih kv show ?thesis by auto
  next
    fix c f assume "k \<noteq> ''links''" "store_entry k f out' = Inr out"
    with store_entry_keys [of k f out' out] ih kv show ?thesis by auto
  qed
qed

lemma clean_entries_distinct:
  "clean_entries env obj kvs = Inr out \<Longrightarrow> distinct (map fst kvs) \<Longrightarrow> distinct (map fst out)"
proof (induction kvs arbitrary: out)
  case Nil
  then show ?case by simp
next
  case (Cons kv kvs)
  obtain k v where kv: "kv = (k, v)" by (cases kv)
  from clean_entries_step [OF Cons.prems(1) [unfolded kv]]
  obtain out' where out': "clean_entries env obj kvs = Inr out'"
    and cases: "k = ''links'' \<and> out = out' \<or>
      k \<noteq> ''links'' \<and>
        (\<exists>c. remove_null_and_empty env (drop_organization k v) = Inr c \<and>
           (is_empty_value c \<and> out = out' \<or>
            \<not> is_empty_value c \<and>
              (\<exists>f. filter_if_attributes env obj k c = Inr f \<and> store_entry k f out' = Inr out)))"
    by blast
  from Cons.prems(2) kv have d: "distinct (map fst kvs)" and nk: "k \<notin> fst ` set kvs"
    by auto
  from Cons.IH [OF out' d] have ih: "distinct (map fst out')" .
  from clean_entries_keys [OF out'] nk have nk': "k \<notin> fst ` set out'" by auto
  from cases show ?case
  proof (elim disjE conjE exE)
    assume "out = out'"
    with ih show ?thesis by simp
  next
    fix c assume "out = out'"
    with ih show ?thesis by simp
  next
    fix c f assume "store_entry k f out' = Inr out"
    from store_entry_tail [OF this] ih nk' show ?thesis by auto
  qed
qed


lemma store_entry_append:
  "store_entry k f out' = Inr out \<Longrightarrow> \<exists>e. store_entry k f [] = Inr e \<and> out = e @ out'"
  by (auto simp: store_entry_def split: json.splits if_splits sum.splits)

lemma store_entry_Nil_cases:
  "store_entry k f [] = Inr e \<Longrightarrow> e = [] \<or> (\<exists>f'. e = [(k, f')])"
  by (auto simp: store_entry_def split: json.splits if_splits sum.splits)

lemma store_entry_append_iff:
  "store_entry k f [] = Inr e \<Longrightarrow> store_entry k f out' = Inr (e @ out')"
  by (auto simp: store_entry_def split: json.splits if_splits sum.splits)

text \<open>Every entry of a dict is visited, and what is stored comes from an entry.\<close>

lemma clean_entries_member:
  assumes "clean_entries env obj kvs = Inr out" and "(k, v) \<in> set kvs" and "k \<noteq> ''links''"
  shows "\<exists>c. remove_null_and_empty env (drop_organization k v) = Inr c \<and>
           (\<not> is_empty_value c \<longrightarrow>
              (\<exists>f e. filter_if_attributes env obj k c = Inr f \<and> store_entry k f [] = Inr e \<and>
                 set e \<subseteq> set out))"
  using assms
proof (induction kvs arbitrary: out)
  case Nil
  then show ?case by simp
next
  case (Cons kv kvs)
  obtain k' v' where kv: "kv = (k', v')" by (cases kv)
  from clean_entries_step [OF Cons.prems(1) [unfolded kv]]
  obtain out' where out': "clean_entries env obj kvs = Inr out'"
    and cases: "k' = ''links'' \<and> out = out' \<or>
      k' \<noteq> ''links'' \<and>
        (\<exists>c. remove_null_and_empty env (drop_organization k' v') = Inr c \<and>
           (is_empty_value c \<and> out = out' \<or>
            \<not> is_empty_value c \<and>
              (\<exists>f. filter_if_attributes env obj k' c = Inr f \<and> store_entry k' f out' = Inr out)))"
    by blast
  have sub: "set out' \<subseteq> set out"
    using cases by (auto dest: store_entry_append)
  show ?case
  proof (cases "(k, v) = (k', v')")
    case True
    with cases Cons.prems(3)
    obtain c where c: "remove_null_and_empty env (drop_organization k v) = Inr c"
      and c': "is_empty_value c \<and> out = out' \<or>
            \<not> is_empty_value c \<and>
              (\<exists>f. filter_if_attributes env obj k c = Inr f \<and> store_entry k f out' = Inr out)"
      by auto
    have "\<not> is_empty_value c \<longrightarrow>
              (\<exists>f e. filter_if_attributes env obj k c = Inr f \<and> store_entry k f [] = Inr e \<and>
                 set e \<subseteq> set out)"
    proof
      assume "\<not> is_empty_value c"
      with c' obtain f where f: "filter_if_attributes env obj k c = Inr f"
        and s: "store_entry k f out' = Inr out" by blast
      from store_entry_append [OF s] obtain e where "store_entry k f [] = Inr e" "out = e @ out'"
        by blast
      with f show "\<exists>f e. filter_if_attributes env obj k c = Inr f \<and> store_entry k f [] = Inr e \<and>
                 set e \<subseteq> set out"
        by auto
    qed
    with c show ?thesis by blast
  next
    case False
    with Cons.prems(2) kv have "(k, v) \<in> set kvs" by auto
    from Cons.IH [OF out' this Cons.prems(3)] sub show ?thesis
      by (meson subset_trans)
  qed
qed

lemma clean_entries_origin:
  assumes "clean_entries env obj kvs = Inr out" and "(k, f') \<in> set out"
  shows "\<exists>v c f. (k, v) \<in> set kvs \<and> k \<noteq> ''links'' \<and>
           remove_null_and_empty env (drop_organization k v) = Inr c \<and> \<not> is_empty_value c \<and>
           filter_if_attributes env obj k c = Inr f \<and> store_entry k f [] = Inr [(k, f')]"
  using assms
proof (induction kvs arbitrary: out)
  case Nil
  then show ?case by simp
next
  case (Cons kv kvs)
  obtain k' v' where kv: "kv = (k', v')" by (cases kv)
  from clean_entries_step [OF Cons.prems(1) [unfolded kv]]
  obtain out' where out': "clean_entries env obj kvs = Inr out'"
    and cases: "k' = ''links'' \<and> out = out' \<or>
      k' \<noteq> ''links'' \<and>
        (\<exists>c. remove_null_and_empty env (drop_organization k' v') = Inr c \<and>
           (is_empty_value c \<and> out = out' \<or>
            \<not> is_empty_value c \<and>
              (\<exists>f. filter_if_attributes env obj k' c = Inr f \<and> store_entry k' f out' = Inr out)))"
    by blast
  show ?case
  proof (cases "(k, f') \<in> set out'")
    case True
    from Cons.IH [OF out' True] show ?thesis by (simp add: kv) blast
  next
    case False
    with Cons.prems(2) cases
    obtain c f where nl: "k' \<noteq> ''links''"
      and c: "remove_null_and_empty env (drop_organization k' v') = Inr c" "\<not> is_empty_value c"
      and f: "filter_if_attributes env obj k' c = Inr f"
      and s: "store_entry k' f out' = Inr out"
      by auto
    from store_entry_append [OF s] obtain e where e: "store_entry k' f [] = Inr e" "out = e @ out'"
      by blast
    with False Cons.prems(2) have "(k, f') \<in> set e" by auto
    with store_entry_Nil_cases [OF e(1)] have "e = [(k, f')]" "k' = k" by auto
    with nl c f e(1) show ?thesis by (simp add: kv) blast
  qed
qed

text \<open>The loop over a list keeps exactly the cleaned items that are not empty.\<close>

lemma clean_items_char:
  "clean_items env xs = Inr ys \<Longrightarrow>
     \<exists>cs. list_all2 (\<lambda>x c. remove_null_and_empty env x = Inr c) xs cs \<and>
          ys = filter (\<lambda>c. \<not> is_empty_value c) cs"
proof (induction xs arbitrary: ys)
  case Nil
  then show ?case by simp
next
  case (Cons x xs)
  from Cons.prems obtain c ys' where c: "remove_null_and_empty env x = Inr c"
    and ys': "clean_items env xs = Inr ys'"
    and ys: "ys = (if is_empty_value c then ys' else c # ys')"
    by (auto split: sum.splits)
  from Cons.IH [OF ys'] obtain cs where
    cs: "list_all2 (\<lambda>x c. remove_null_and_empty env x = Inr c) xs cs"
      "ys' = filter (\<lambda>c. \<not> is_empty_value c) cs"
    by blast
  have "list_all2 (\<lambda>x c. remove_null_and_empty env x = Inr c) (x # xs) (c # cs)"
    using c cs(1) by simp
  moreover have "ys = filter (\<lambda>c. \<not> is_empty_value c) (c # cs)"
    using ys cs(2) by simp
  ultimately show ?case by blast
qed

lemma clean_items_member:
  assumes "clean_items env xs = Inr ys" and "x \<in> set xs"
  shows "\<exists>c. remove_null_and_empty env x = Inr c \<and> (\<not> is_empty_value c \<longrightarrow> c \<in> set ys)"
proof -
  from clean_items_char [OF assms(1)] obtain cs where
    cs: "list_all2 (\<lambda>x c. remove_null_and_empty env x = Inr c) xs cs"
      "ys = filter (\<lambda>c. \<not> is_empty_value c) cs"
    by blast
  from assms(2) obtain i where i: "i < length xs" "xs ! i = x"
    by (auto simp: in_set_conv_nth)
  with cs(1) have "remove_null_and_empty env x = Inr (cs ! i)" "i < length cs"
    by (auto simp: list_all2_conv_all_nth)
  with cs(2) show ?thesis by auto
qed

lemma clean_items_origin:
  assumes "clean_items env xs = Inr ys" and "y \<in> set ys"
  shows "\<not> is_empty_value y \<and> (\<exists>x \<in> set xs. remove_null_and_empty env x = Inr y)"
proof -
  from clean_items_char [OF assms(1)] obtain cs where
    cs: "list_all2 (\<lambda>x c. remove_null_and_empty env x = Inr c) xs cs"
      "ys = filter (\<lambda>c. \<not> is_empty_value c) cs"
    by blast
  from assms(2) cs(2) have y: "y \<in> set cs" "\<not> is_empty_value y" by auto
  then obtain i where i: "i < length cs" "cs ! i = y"
    by (auto simp: in_set_conv_nth)
  with cs(1) have "remove_null_and_empty env (xs ! i) = Inr y" "i < length xs"
    by (auto simp: list_all2_conv_all_nth)
  with y(2) show ?thesis by auto
qed










lemma remove_null_and_empty_JObj:
  "remove_null_and_empty env (JObj obj) = Inr r \<Longrightarrow>
     \<exists>out. r = JObj out \<and> clean_entries env obj obj = Inr out"
  by (auto split: sum.splits)

lemma remove_null_and_empty_JArr:
  "remove_null_and_empty env (JArr xs) = Inr r \<Longrightarrow>
     \<exists>ys. r = JArr ys \<and> clean_items env xs = Inr ys"
  by (auto split: sum.splits)





section \<open>Properties of the default filter\<close>

text \<open>
  A key without a rule of its own: its entry is stored with the cleaned value unless
  that value is empty.
\<close>

lemma clean_entries_lookup_None:
  assumes "clean_entries env obj kvs = Inr out" and "map_of kvs k = None"
  shows "map_of out k = None"
proof -
  from assms(2) have "k \<notin> fst ` set kvs"
    by (simp add: map_of_eq_None_iff)
  with clean_entries_keys [OF assms(1)] have "k \<notin> fst ` set out" by auto
  then show ?thesis by (simp add: map_of_eq_None_iff)
qed

lemma clean_entries_lookup_Some:
  assumes ret: "clean_entries env obj kvs = Inr out" and dist: "distinct (map fst kvs)"
    and look: "map_of kvs k = Some v"
    and plain: "k \<noteq> ''links''" "k \<noteq> ''attributes''" "k \<noteq> ''meta''" "k \<noteq> ''relationships''"
  shows "\<exists>c. remove_null_and_empty env v = Inr c \<and>
           map_of out k = (if is_empty_value c then None else Some c)"
proof -
  from look have mem: "(k, v) \<in> set kvs" by (rule map_of_SomeD)
  have d: "drop_organization k v = v"
    using plain(4) by (rule drop_organization_other)
  from clean_entries_member [OF ret mem plain(1)] d
  obtain c where c: "remove_null_and_empty env v = Inr c"
    and st: "\<not> is_empty_value c \<longrightarrow>
       (\<exists>f e. filter_if_attributes env obj k c = Inr f \<and> store_entry k f [] = Inr e \<and>
          set e \<subseteq> set out)"
    by auto
  have dout: "distinct (map fst out)"
    by (rule clean_entries_distinct [OF ret dist])
  have "map_of out k = (if is_empty_value c then None else Some c)"
  proof (cases "is_empty_value c")
    case False
    with st obtain f e where f: "filter_if_attributes env obj k c = Inr f"
      and e: "store_entry k f [] = Inr e" "set e \<subseteq> set out" by blast
    from f have "f = c"
      by (simp add: filter_if_attributes_other [OF plain(2)])
    with e(1) have "e = [(k, c)]"
      by (simp add: store_entry_other [OF plain(3)])
    with e(2) have "(k, c) \<in> set out" by simp
    with dout have "map_of out k = Some c" by simp
    with False show ?thesis by simp
  next
    case True
    have "map_of out k = None"
    proof (rule ccontr)
      assume "map_of out k \<noteq> None"
      then obtain f' where "map_of out k = Some f'" by auto
      then have "(k, f') \<in> set out" by (rule map_of_SomeD)
      from clean_entries_origin [OF ret this]
      obtain v' c' where v': "(k, v') \<in> set kvs"
        and c': "remove_null_and_empty env (drop_organization k v') = Inr c'" "\<not> is_empty_value c'"
        by blast
      from v' dist look have "v' = v" by simp
      with c' d c True show False by simp
    qed
    with True show ?thesis by simp
  qed
  with c show ?thesis by blast
qed

lemma remove_null_and_empty_to_JObj:
  "remove_null_and_empty env x = Inr (JObj pd) \<Longrightarrow>
     \<exists>item. x = JObj item \<and> clean_entries env item item = Inr pd"
  by (cases x) (auto split: sum.splits)

text \<open>What the enrichment of one item leaves alone and what it sets.\<close>

lemma enrich_item_dict:
  "enrich_item env inc p = Inr y \<Longrightarrow> \<exists>pd od. p = JObj pd \<and> y = JObj od"
  by (cases p)
    (auto simp: enrich_item_def add_webapp_url_def Let_def
      split: if_splits sum.splits option.splits json.splits)

lemma enrich_item_lookup:
  assumes "enrich_item env inc (JObj pd) = Inr (JObj od)"
  shows "(\<forall>k. k \<noteq> ''attributes'' \<longrightarrow> k \<noteq> ''webapp_url'' \<longrightarrow> map_of od k = map_of pd k) \<and>
    map_of od ''webapp_url'' =
      (if truthy (py_get pd ''type'') \<and> truthy (py_get pd ''id'')
       then Some (JStr (get_webapp_url env (py_get pd ''type'') (py_get pd ''id'')))
       else map_of pd ''webapp_url'')"
  using assms
  by (auto simp: enrich_item_def add_webapp_url_def Let_def update_conv'
      split: if_splits sum.splits option.splits json.splits)

lemma enrich_items_all2:
  "enrich_items env inc ps = Inr outs \<Longrightarrow>
     list_all2 (\<lambda>p y. enrich_item env inc p = Inr y) ps outs"
  by (induction ps arbitrary: outs) (auto split: sum.splits)

text \<open>
  The resource objects at \<open>data\<close> of a document (one object or a list of them), and
  what it means for a field of a resource object to be present (a string that is not
  empty) or missing (absent, \<open>null\<close> or empty).
\<close>

definition data_items :: "(string \<times> json) list \<Rightarrow> json list" where
  "data_items doc =
     (case map_of doc ''data'' of
        Some (JObj d) \<Rightarrow> [JObj d]
      | Some (JArr xs) \<Rightarrow> xs
      | _ \<Rightarrow> [])"

definition field_present :: "(string \<times> json) list \<Rightarrow> string \<Rightarrow> string \<Rightarrow> bool" where
  "field_present item k s \<longleftrightarrow> map_of item k = Some (JStr s) \<and> s \<noteq> []"

definition field_missing :: "(string \<times> json) list \<Rightarrow> string \<Rightarrow> bool" where
  "field_missing item k \<longleftrightarrow> is_empty_value (py_get item k)"

lemma remove_null_and_empty_empty:
  "is_empty_value v \<Longrightarrow> remove_null_and_empty env v = Inr v"
  by (cases v) auto

lemma pruned_field_present:
  assumes "clean_entries env obj item = Inr pd" and "distinct (map fst item)"
    and "field_present item k s" and "k = ''type'' \<or> k = ''id''"
  shows "map_of pd k = Some (JStr s)"
proof -
  from assms(3) have look: "map_of item k = Some (JStr s)" and s: "s \<noteq> []"
    by (simp_all add: field_present_def)
  from assms(4) have "k \<noteq> ''links''" "k \<noteq> ''attributes''" "k \<noteq> ''meta''" "k \<noteq> ''relationships''"
    by auto
  from clean_entries_lookup_Some [OF assms(1,2) look this] s show ?thesis
    by auto
qed

lemma pruned_field_missing:
  assumes "clean_entries env obj item = Inr pd" and "distinct (map fst item)"
    and "field_missing item k" and "k = ''type'' \<or> k = ''id''"
  shows "map_of pd k = None"
proof (cases "map_of item k")
  case None
  then show ?thesis by (rule clean_entries_lookup_None [OF assms(1)])
next
  case (Some v)
  with assms(3) have e: "is_empty_value v"
    by (simp add: field_missing_def py_get_def py_get_default_def)
  from assms(4) have "k \<noteq> ''links''" "k \<noteq> ''attributes''" "k \<noteq> ''meta''" "k \<noteq> ''relationships''"
    by auto
  from clean_entries_lookup_Some [OF assms(1,2) Some this] remove_null_and_empty_empty [OF e, of env] e
  show ?thesis by auto
qed

lemma pruned_field_origin:
  assumes "clean_entries env obj item = Inr pd" and "distinct (map fst item)"
    and "map_of pd k = Some c" and "k = ''type'' \<or> k = ''id''"
  shows "\<exists>v. map_of item k = Some v \<and> remove_null_and_empty env v = Inr c"
proof (cases "map_of item k")
  case None
  from clean_entries_lookup_None [OF assms(1) None] assms(3) show ?thesis by simp
next
  case (Some v)
  from assms(4) have "k \<noteq> ''links''" "k \<noteq> ''attributes''" "k \<noteq> ''meta''" "k \<noteq> ''relationships''"
    by auto
  from clean_entries_lookup_Some [OF assms(1,2) Some this] assms(3) Some show ?thesis
    by (auto split: if_splits)
qed

text \<open>One resource object, from the input to the output of \<open>filter_response\<close>.\<close>

lemma item_enriched_present:
  assumes cl: "clean_entries env item item = Inr pd" and dist: "distinct (map fst item)"
    and en: "enrich_item env inc (JObj pd) = Inr (JObj od)"
    and ty: "field_present item ''type'' t" and ident: "field_present item ''id'' i"
  shows "map_of od ''type'' = Some (JStr t) \<and> map_of od ''id'' = Some (JStr i) \<and>
    map_of od ''webapp_url'' =
      Some (JStr (''https://app.productive.io/'' @ organization env @ ''/'' @ t @ ''/'' @ i))"
proof -
  have pt: "map_of pd ''type'' = Some (JStr t)"
    by (rule pruned_field_present [OF cl dist ty]) simp
  have pi: "map_of pd ''id'' = Some (JStr i)"
    by (rule pruned_field_present [OF cl dist ident]) simp
  from ty ident have ne: "t \<noteq> []" "i \<noteq> []"
    by (simp_all add: field_present_def)
  from enrich_item_lookup [OF en] pt pi ne show ?thesis
    by (simp add: py_get_def py_get_default_def get_webapp_url_def py_str_def)
qed

lemma item_enriched_origin:
  assumes cl: "clean_entries env item item = Inr pd" and dist: "distinct (map fst item)"
    and en: "enrich_item env inc (JObj pd) = Inr (JObj od)"
    and k: "k = ''type'' \<or> k = ''id''" and look: "map_of od k = Some c"
  shows "\<exists>v. map_of item k = Some v \<and> remove_null_and_empty env v = Inr c"
proof -
  from k have "k \<noteq> ''attributes''" "k \<noteq> ''webapp_url''" by auto
  with enrich_item_lookup [OF en] look have "map_of pd k = Some c" by simp
  from pruned_field_origin [OF cl dist this k] show ?thesis .
qed

lemma item_enriched_missing:
  assumes cl: "clean_entries env item item = Inr pd" and dist: "distinct (map fst item)"
    and en: "enrich_item env inc (JObj pd) = Inr (JObj od)"
    and miss: "field_missing item ''type'' \<or> field_missing item ''id''"
    and none: "map_of item ''webapp_url'' = None"
  shows "map_of od ''webapp_url'' = None"
proof -
  have "map_of pd ''type'' = None \<or> map_of pd ''id'' = None"
    using miss pruned_field_missing [OF cl dist, of "''type''"]
      pruned_field_missing [OF cl dist, of "''id''"]
    by auto
  then have "\<not> (truthy (py_get pd ''type'') \<and> truthy (py_get pd ''id''))"
    by (auto simp: py_get_def py_get_default_def)
  moreover have "map_of pd ''webapp_url'' = None"
    by (rule clean_entries_lookup_None [OF cl none])
  ultimately show ?thesis
    using enrich_item_lookup [OF en] by simp
qed

lemma item_enriched_attached:
  assumes cl: "clean_entries env item item = Inr pd"
    and en: "enrich_item env inc (JObj pd) = Inr (JObj od)"
    and none: "map_of item ''webapp_url'' = None"
    and some: "map_of od ''webapp_url'' = Some u"
  shows "truthy (py_get od ''type'') \<and> truthy (py_get od ''id'') \<and>
    u = JStr (get_webapp_url env (py_get od ''type'') (py_get od ''id''))"
proof -
  have p: "map_of pd ''webapp_url'' = None"
    by (rule clean_entries_lookup_None [OF cl none])
  from enrich_item_lookup [OF en]
  have same: "map_of od ''type'' = map_of pd ''type''" "map_of od ''id'' = map_of pd ''id''"
    and url: "map_of od ''webapp_url'' =
      (if truthy (py_get pd ''type'') \<and> truthy (py_get pd ''id'')
       then Some (JStr (get_webapp_url env (py_get pd ''type'') (py_get pd ''id'')))
       else map_of pd ''webapp_url'')"
    by simp_all
  from same have g: "py_get od ''type'' = py_get pd ''type''" "py_get od ''id'' = py_get pd ''id''"
    by (simp_all add: py_get_def py_get_default_def)
  from url p some g show ?thesis
    by (auto split: if_splits)
qed

lemma filter_response_JObj:
  assumes "filter_response env (JObj doc) = Inr res"
  shows "\<exists>f. clean_entries env doc doc = Inr f \<and>
    (data_items f = [] \<and> res = JObj f \<or>
     (\<exists>pd od. map_of f ''data'' = Some (JObj pd) \<and>
        enrich_item env (py_get_default doc ''included'' (JArr [])) (JObj pd) = Inr (JObj od) \<and>
        res = JObj (AList.update ''data'' (JObj od) f)) \<or>
     (\<exists>ps outs. map_of f ''data'' = Some (JArr ps) \<and>
        enrich_items env (py_get_default doc ''included'' (JArr [])) ps = Inr outs \<and>
        res = JObj (AList.update ''data'' (JArr outs) f)))"
proof -
  from assms obtain f where f: "clean_entries env doc doc = Inr f"
    and r: "remove_null_and_empty env (JObj doc) = Inr (JObj f)"
    by (auto simp: filter_response_def split: sum.splits)
  show ?thesis
  proof (cases "map_of f ''data''")
    case None
    with assms r have "res = JObj f" "data_items f = []"
      by (simp_all add: filter_response_def data_items_def)
    with f show ?thesis by blast
  next
    case (Some d)
    show ?thesis
    proof (cases d)
      case (JObj pd)
      with assms r Some obtain y
        where y: "enrich_item env (py_get_default doc ''included'' (JArr [])) (JObj pd) = Inr y"
          "res = JObj (AList.update ''data'' y f)"
        by (auto simp: filter_response_def split: sum.splits)
      from enrich_item_dict [OF y(1)] obtain od where "y = JObj od" by blast
      with y Some JObj f show ?thesis by blast
    next
      case (JArr ps)
      with assms r Some obtain outs
        where "enrich_items env (py_get_default doc ''included'' (JArr [])) ps = Inr outs"
          "res = JObj (AList.update ''data'' (JArr outs) f)"
        by (auto simp: filter_response_def split: sum.splits)
      with Some JArr f show ?thesis by blast
    next
      case JNull
      with assms r Some have "res = JObj f" "data_items f = []"
        by (simp_all add: filter_response_def data_items_def)
      with f show ?thesis by blast
    next
      case (JBool b)
      with assms r Some have "res = JObj f" "data_items f = []"
        by (simp_all add: filter_response_def data_items_def)
      with f show ?thesis by blast
    next
      case (JNum n)
      with assms r Some have "res = JObj f" "data_items f = []"
        by (simp_all add: filter_response_def data_items_def)
      with f show ?thesis by blast
    next
      case (JStr s)
      with assms r Some have "res = JObj f" "data_items f = []"
        by (simp_all add: filter_response_def data_items_def)
      with f show ?thesis by blast
    qed
  qed
qed

lemma data_items_update:
  "data_items (AList.update ''data'' (JObj od) f) = [JObj od]"
  "data_items (AList.update ''data'' (JArr outs) f) = outs"
  by (simp_all add: data_items_def update_conv')

lemma pruned_data:
  assumes f: "clean_entries env doc doc = Inr f" and dist: "distinct (map fst doc)"
  shows "map_of doc ''data'' = Some v \<Longrightarrow>
           \<exists>c. remove_null_and_empty env v = Inr c \<and>
             map_of f ''data'' = (if is_empty_value c then None else Some c)"
    and "map_of f ''data'' = Some c \<Longrightarrow>
           \<exists>v. map_of doc ''data'' = Some v \<and> remove_null_and_empty env v = Inr c"
proof -
  show "map_of doc ''data'' = Some v \<Longrightarrow>
           \<exists>c. remove_null_and_empty env v = Inr c \<and>
             map_of f ''data'' = (if is_empty_value c then None else Some c)"
    by (rule clean_entries_lookup_Some [OF f dist]) simp_all
next
  assume c: "map_of f ''data'' = Some c"
  show "\<exists>v. map_of doc ''data'' = Some v \<and> remove_null_and_empty env v = Inr c"
  proof (cases "map_of doc ''data''")
    case None
    from clean_entries_lookup_None [OF f None] c show ?thesis by simp
  next
    case (Some v)
    have "\<exists>c. remove_null_and_empty env v = Inr c \<and>
             map_of f ''data'' = (if is_empty_value c then None else Some c)"
      by (rule clean_entries_lookup_Some [OF f dist Some]) simp_all
    with c Some show ?thesis by (auto split: if_splits)
  qed
qed

lemma remove_null_and_empty_to_JArr:
  "remove_null_and_empty env x = Inr (JArr ps) \<Longrightarrow>
     \<exists>items. x = JArr items \<and> clean_items env items = Inr ps"
  by (cases x) (auto split: sum.splits)

lemma data_items_cases:
  assumes "JObj item \<in> set (data_items doc)"
  shows "\<exists>v. map_of doc ''data'' = Some v \<and>
           (v = JObj item \<or> (\<exists>xs. v = JArr xs \<and> JObj item \<in> set xs))"
proof (cases "map_of doc ''data''")
  case None
  with assms show ?thesis by (simp add: data_items_def)
next
  case (Some v)
  with assms show ?thesis
    by (cases v) (simp_all add: data_items_def)
qed

lemma wf_json_data_item:
  assumes "wf_json (JObj doc)" and "JObj item \<in> set (data_items doc)"
  shows "distinct (map fst item)"
proof -
  from data_items_cases [OF assms(2)] obtain v where v: "map_of doc ''data'' = Some v"
    and cases: "v = JObj item \<or> (\<exists>xs. v = JArr xs \<and> JObj item \<in> set xs)"
    by blast
  from v have "(''data'', v) \<in> set doc" by (rule map_of_SomeD)
  with assms(1) have wfv: "wf_json v" by auto
  from cases show ?thesis
  proof
    assume "v = JObj item"
    with wfv show ?thesis by simp
  next
    assume "\<exists>xs. v = JArr xs \<and> JObj item \<in> set xs"
    then obtain xs where xs: "v = JArr xs" "JObj item \<in> set xs" by blast
    from wfv xs(1) have "\<forall>x \<in> set xs. wf_json x" by simp
    from bspec [OF this xs(2)] show ?thesis by simp
  qed
qed

text \<open>Every resource object of the input with a type and an id has its enriched image.\<close>

lemma filter_response_forward:
  assumes ret: "filter_response env (JObj doc) = Inr (JObj out)" and wf: "wf_json (JObj doc)"
    and item: "JObj item \<in> set (data_items doc)"
    and ty: "field_present item ''type'' t" and ident: "field_present item ''id'' i"
  shows "\<exists>y. JObj y \<in> set (data_items out) \<and> map_of y ''type'' = Some (JStr t) \<and>
      map_of y ''id'' = Some (JStr i) \<and>
      map_of y ''webapp_url'' =
        Some (JStr (''https://app.productive.io/'' @ organization env @ ''/'' @ t @ ''/'' @ i))"
proof -
  let ?inc = "py_get_default doc ''included'' (JArr [])"
  from wf have dist: "distinct (map fst doc)" by simp
  have idist: "distinct (map fst item)"
    by (rule wf_json_data_item [OF wf item])
  from filter_response_JObj [OF ret] obtain f where f: "clean_entries env doc doc = Inr f"
    and cases: "data_items f = [] \<and> JObj out = JObj f \<or>
     (\<exists>pd od. map_of f ''data'' = Some (JObj pd) \<and>
        enrich_item env ?inc (JObj pd) = Inr (JObj od) \<and>
        JObj out = JObj (AList.update ''data'' (JObj od) f)) \<or>
     (\<exists>ps outs. map_of f ''data'' = Some (JArr ps) \<and>
        enrich_items env ?inc ps = Inr outs \<and>
        JObj out = JObj (AList.update ''data'' (JArr outs) f))"
    by blast
  from data_items_cases [OF item] obtain v where v: "map_of doc ''data'' = Some v"
    and shape: "v = JObj item \<or> (\<exists>xs. v = JArr xs \<and> JObj item \<in> set xs)"
    by blast
  from pruned_data(1) [OF f dist v] obtain c where c: "remove_null_and_empty env v = Inr c"
    and fd: "map_of f ''data'' = (if is_empty_value c then None else Some c)"
    by blast
  \<comment> \<open>the pruned item is a mapping that still has its type\<close>
  have pruned: "\<exists>pd. remove_null_and_empty env (JObj item) = Inr (JObj pd) \<and>
      clean_entries env item item = Inr pd \<and> pd \<noteq> [] \<and> (v = JObj item \<longrightarrow> c = JObj pd) \<and>
      (\<forall>xs. v = JArr xs \<longrightarrow> (\<exists>ps. c = JArr ps \<and> JObj pd \<in> set ps))"
  proof -
    from shape show ?thesis
    proof
      assume one: "v = JObj item"
      with c obtain pd where pd: "c = JObj pd" "clean_entries env item item = Inr pd"
        using remove_null_and_empty_JObj by blast
      from pruned_field_present [OF pd(2) idist ty] have "pd \<noteq> []" by auto
      with pd one c show ?thesis by auto
    next
      assume "\<exists>xs. v = JArr xs \<and> JObj item \<in> set xs"
      then obtain xs where xs: "v = JArr xs" "JObj item \<in> set xs" by blast
      with c obtain ps where ps: "c = JArr ps" "clean_items env xs = Inr ps"
        using remove_null_and_empty_JArr by blast
      from clean_items_member [OF ps(2) xs(2)]
      obtain c' where c': "remove_null_and_empty env (JObj item) = Inr c'"
        "\<not> is_empty_value c' \<longrightarrow> c' \<in> set ps" by blast
      from remove_null_and_empty_JObj [OF c'(1)] obtain pd
        where pd: "c' = JObj pd" "clean_entries env item item = Inr pd" by blast
      from pruned_field_present [OF pd(2) idist ty] have "pd \<noteq> []" by auto
      with c' pd xs ps show ?thesis by auto
    qed
  qed
  then obtain pd where pd: "clean_entries env item item = Inr pd" "pd \<noteq> []"
    and single: "v = JObj item \<longrightarrow> c = JObj pd"
    and many: "\<forall>xs. v = JArr xs \<longrightarrow> (\<exists>ps. c = JArr ps \<and> JObj pd \<in> set ps)"
    by blast
  from shape show ?thesis
  proof
    assume "v = JObj item"
    with single pd(2) fd have "map_of f ''data'' = Some (JObj pd)" by simp
    with cases obtain od where od: "enrich_item env ?inc (JObj pd) = Inr (JObj od)"
      "out = AList.update ''data'' (JObj od) f"
      by (auto simp: data_items_def)
    from item_enriched_present [OF pd(1) idist od(1) ty ident] od(2) show ?thesis
      by (auto simp: data_items_update)
  next
    assume "\<exists>xs. v = JArr xs \<and> JObj item \<in> set xs"
    with many obtain ps where ps: "c = JArr ps" "JObj pd \<in> set ps" by blast
    then have "map_of f ''data'' = Some (JArr ps)"
      using fd by auto
    with cases ps(2) obtain outs where outs: "enrich_items env ?inc ps = Inr outs"
      "out = AList.update ''data'' (JArr outs) f"
      by (auto simp: data_items_def)
    from ps(2) obtain n where n: "n < length ps" "ps ! n = JObj pd"
      by (auto simp: in_set_conv_nth)
    with enrich_items_all2 [OF outs(1)]
    have en: "enrich_item env ?inc (JObj pd) = Inr (outs ! n)" and len: "n < length outs"
      by (auto simp: list_all2_conv_all_nth)
    from enrich_item_dict [OF en] obtain od where od: "outs ! n = JObj od" by blast
    from len od have "JObj od \<in> set outs"
      by (metis nth_mem)
    with item_enriched_present [OF pd(1) idist en [unfolded od] ty ident] outs(2) show ?thesis
      by (auto simp: data_items_update)
  qed
qed

text \<open>Every resource object of the output is the enriched image of one of the input.\<close>

lemma filter_response_backward:
  assumes ret: "filter_response env (JObj doc) = Inr (JObj out)" and wf: "wf_json (JObj doc)"
    and y: "JObj y \<in> set (data_items out)"
  shows "\<exists>item pd. JObj item \<in> set (data_items doc) \<and> clean_entries env item item = Inr pd \<and>
      enrich_item env (py_get_default doc ''included'' (JArr [])) (JObj pd) = Inr (JObj y)"
proof -
  let ?inc = "py_get_default doc ''included'' (JArr [])"
  from wf have dist: "distinct (map fst doc)" by simp
  from filter_response_JObj [OF ret] obtain f where f: "clean_entries env doc doc = Inr f"
    and cases: "data_items f = [] \<and> JObj out = JObj f \<or>
     (\<exists>pd od. map_of f ''data'' = Some (JObj pd) \<and>
        enrich_item env ?inc (JObj pd) = Inr (JObj od) \<and>
        JObj out = JObj (AList.update ''data'' (JObj od) f)) \<or>
     (\<exists>ps outs. map_of f ''data'' = Some (JArr ps) \<and>
        enrich_items env ?inc ps = Inr outs \<and>
        JObj out = JObj (AList.update ''data'' (JArr outs) f))"
    by blast
  from cases show ?thesis
  proof (elim disjE conjE exE)
    assume "data_items f = []" "JObj out = JObj f"
    with y show ?thesis by simp
  next
    fix pd od
    assume fd: "map_of f ''data'' = Some (JObj pd)"
      and en: "enrich_item env ?inc (JObj pd) = Inr (JObj od)"
      and out: "JObj out = JObj (AList.update ''data'' (JObj od) f)"
    from out y have "y = od" by (simp add: data_items_update)
    from pruned_data(2) [OF f dist fd] obtain v where v: "map_of doc ''data'' = Some v"
      "remove_null_and_empty env v = Inr (JObj pd)" by blast
    from remove_null_and_empty_to_JObj [OF v(2)] obtain item
      where item: "v = JObj item" "clean_entries env item item = Inr pd" by blast
    from v(1) item(1) have "JObj item \<in> set (data_items doc)"
      by (simp add: data_items_def)
    with item(2) en \<open>y = od\<close> show ?thesis by blast
  next
    fix ps outs
    assume fd: "map_of f ''data'' = Some (JArr ps)"
      and en: "enrich_items env ?inc ps = Inr outs"
      and out: "JObj out = JObj (AList.update ''data'' (JArr outs) f)"
    from out y have "JObj y \<in> set outs" by (simp add: data_items_update)
    then obtain n where n: "n < length outs" "outs ! n = JObj y"
      by (auto simp: in_set_conv_nth)
    with enrich_items_all2 [OF en]
    have eny: "enrich_item env ?inc (ps ! n) = Inr (JObj y)" and len: "n < length ps"
      by (auto simp: list_all2_conv_all_nth)
    from enrich_item_dict [OF eny] obtain pd where pd: "ps ! n = JObj pd" by blast
    with len have mem: "JObj pd \<in> set ps" by (metis nth_mem)
    from pruned_data(2) [OF f dist fd] obtain v where v: "map_of doc ''data'' = Some v"
      "remove_null_and_empty env v = Inr (JArr ps)" by blast
    from remove_null_and_empty_to_JArr [OF v(2)] obtain items
      where items: "v = JArr items" "clean_items env items = Inr ps" by blast
    from clean_items_origin [OF items(2) mem] obtain x
      where x: "x \<in> set items" "remove_null_and_empty env x = Inr (JObj pd)" by blast
    from remove_null_and_empty_to_JObj [OF x(2)] obtain item
      where item: "x = JObj item" "clean_entries env item item = Inr pd" by blast
    from v(1) items(1) x(1) item(1) have "JObj item \<in> set (data_items doc)"
      by (simp add: data_items_def)
    with item(2) eny pd show ?thesis by auto
  qed
qed

lemma filter_response_returns_JObj:
  "filter_response env (JObj doc) = Inr res \<Longrightarrow> \<exists>out. res = JObj out"
  using filter_response_JObj by blast

text \<open>
  C5. Let \<open>filter_response\<close> return on a document whose mappings have pairwise distinct
  keys. Every resource object at \<open>data\<close> whose \<open>type\<close> and \<open>id\<close> are both present has
  an output object with the same \<open>type\<close> and \<open>id\<close> and with \<open>webapp_url\<close> equal to
  \<open>https://app.productive.io/{organization}/{type}/{id}\<close>. Every output object at
  \<open>data\<close> comes from an input object: a \<open>type\<close> or \<open>id\<close> it carries is the cleaned
  \<open>type\<close> or \<open>id\<close> of that input object; when the input object misses its \<open>type\<close> or
  its \<open>id\<close> (and has no \<open>webapp_url\<close> of its own) the output object has no
  \<open>webapp_url\<close>; and a \<open>webapp_url\<close> that the filter attached is built from the
  \<open>type\<close> and \<open>id\<close> that the output object carries.
\<close>

theorem filter_response_webapp_url:
  assumes "filter_response env (JObj doc) = Inr res" and "wf_json (JObj doc)"
  shows "\<exists>out. res = JObj out \<and>
    (\<forall>item t i. JObj item \<in> set (data_items doc) \<and> field_present item ''type'' t \<and>
        field_present item ''id'' i \<longrightarrow>
      (\<exists>y. JObj y \<in> set (data_items out) \<and> map_of y ''type'' = Some (JStr t) \<and>
         map_of y ''id'' = Some (JStr i) \<and>
         map_of y ''webapp_url'' =
           Some (JStr (''https://app.productive.io/'' @ organization env @ ''/'' @ t @ ''/'' @ i)))) \<and>
    (\<forall>y. JObj y \<in> set (data_items out) \<longrightarrow>
      (\<exists>item. JObj item \<in> set (data_items doc) \<and>
         (\<forall>c. map_of y ''type'' = Some c \<longrightarrow>
            (\<exists>v. map_of item ''type'' = Some v \<and> remove_null_and_empty env v = Inr c)) \<and>
         (\<forall>c. map_of y ''id'' = Some c \<longrightarrow>
            (\<exists>v. map_of item ''id'' = Some v \<and> remove_null_and_empty env v = Inr c)) \<and>
         (map_of item ''webapp_url'' = None \<longrightarrow>
            ((field_missing item ''type'' \<or> field_missing item ''id'') \<longrightarrow>
               map_of y ''webapp_url'' = None) \<and>
            (\<forall>u. map_of y ''webapp_url'' = Some u \<longrightarrow>
               truthy (py_get y ''type'') \<and> truthy (py_get y ''id'') \<and>
               u = JStr (get_webapp_url env (py_get y ''type'') (py_get y ''id''))))))"
proof -
  from filter_response_returns_JObj [OF assms(1)] obtain out where out: "res = JObj out"
    by blast
  note ret = assms(1) [unfolded out]
  have fwd: "\<forall>item t i. JObj item \<in> set (data_items doc) \<and> field_present item ''type'' t \<and>
        field_present item ''id'' i \<longrightarrow>
      (\<exists>y. JObj y \<in> set (data_items out) \<and> map_of y ''type'' = Some (JStr t) \<and>
         map_of y ''id'' = Some (JStr i) \<and>
         map_of y ''webapp_url'' =
           Some (JStr (''https://app.productive.io/'' @ organization env @ ''/'' @ t @ ''/'' @ i)))"
  proof (intro allI impI)
    fix item t i
    assume a: "JObj item \<in> set (data_items doc) \<and> field_present item ''type'' t \<and>
        field_present item ''id'' i"
    from a have a1: "JObj item \<in> set (data_items doc)" by (rule conjunct1)
    from a have a2: "field_present item ''type'' t" by simp
    from a have a3: "field_present item ''id'' i" by simp
    show "\<exists>y. JObj y \<in> set (data_items out) \<and> map_of y ''type'' = Some (JStr t) \<and>
         map_of y ''id'' = Some (JStr i) \<and>
         map_of y ''webapp_url'' =
           Some (JStr (''https://app.productive.io/'' @ organization env @ ''/'' @ t @ ''/'' @ i))"
      by (rule filter_response_forward [OF ret assms(2) a1 a2 a3])
  qed
  have bwd: "\<forall>y. JObj y \<in> set (data_items out) \<longrightarrow>
      (\<exists>item. JObj item \<in> set (data_items doc) \<and>
         (\<forall>c. map_of y ''type'' = Some c \<longrightarrow>
            (\<exists>v. map_of item ''type'' = Some v \<and> remove_null_and_empty env v = Inr c)) \<and>
         (\<forall>c. map_of y ''id'' = Some c \<longrightarrow>
            (\<exists>v. map_of item ''id'' = Some v \<and> remove_null_and_empty env v = Inr c)) \<and>
         (map_of item ''webapp_url'' = None \<longrightarrow>
            ((field_missing item ''type'' \<or> field_missing item ''id'') \<longrightarrow>
               map_of y ''webapp_url'' = None) \<and>
            (\<forall>u. map_of y ''webapp_url'' = Some u \<longrightarrow>
               truthy (py_get y ''type'') \<and> truthy (py_get y ''id'') \<and>
               u = JStr (get_webapp_url env (py_get y ''type'') (py_get y ''id'')))))"
  proof (intro allI impI)
    fix y
    assume y: "JObj y \<in> set (data_items out)"
    from filter_response_backward [OF ret assms(2) y] obtain item pd
      where item: "JObj item \<in> set (data_items doc)"
        and cl: "clean_entries env item item = Inr pd"
        and en: "enrich_item env (py_get_default doc ''included'' (JArr [])) (JObj pd) = Inr (JObj y)"
      by blast
    have idist: "distinct (map fst item)"
      by (rule wf_json_data_item [OF assms(2) item])
    have ty: "\<forall>c. map_of y ''type'' = Some c \<longrightarrow>
        (\<exists>v. map_of item ''type'' = Some v \<and> remove_null_and_empty env v = Inr c)"
    proof (intro allI impI)
      fix c assume "map_of y ''type'' = Some c"
      then show "\<exists>v. map_of item ''type'' = Some v \<and> remove_null_and_empty env v = Inr c"
        by (rule item_enriched_origin [OF cl idist en disjI1 [OF refl]])
    qed
    have ident: "\<forall>c. map_of y ''id'' = Some c \<longrightarrow>
        (\<exists>v. map_of item ''id'' = Some v \<and> remove_null_and_empty env v = Inr c)"
    proof (intro allI impI)
      fix c assume "map_of y ''id'' = Some c"
      then show "\<exists>v. map_of item ''id'' = Some v \<and> remove_null_and_empty env v = Inr c"
        by (rule item_enriched_origin [OF cl idist en disjI2 [OF refl]])
    qed
    have miss: "map_of item ''webapp_url'' = None \<longrightarrow>
        ((field_missing item ''type'' \<or> field_missing item ''id'') \<longrightarrow>
           map_of y ''webapp_url'' = None) \<and>
        (\<forall>u. map_of y ''webapp_url'' = Some u \<longrightarrow>
           truthy (py_get y ''type'') \<and> truthy (py_get y ''id'') \<and>
           u = JStr (get_webapp_url env (py_get y ''type'') (py_get y ''id'')))"
    proof (intro impI conjI allI)
      assume "field_missing item ''type'' \<or> field_missing item ''id''"
        and "map_of item ''webapp_url'' = None"
      then show "map_of y ''webapp_url'' = None"
        by (rule item_enriched_missing [OF cl idist en])
    next
      fix u
      assume n: "map_of item ''webapp_url'' = None" and u: "map_of y ''webapp_url'' = Some u"
      from item_enriched_attached [OF cl en n u]
      show "truthy (py_get y ''type'')" "truthy (py_get y ''id'')"
        "u = JStr (get_webapp_url env (py_get y ''type'') (py_get y ''id''))"
        by simp_all
    qed
    from item ty ident miss
    have "JObj item \<in> set (data_items doc) \<and>
         (\<forall>c. map_of y ''type'' = Some c \<longrightarrow>
            (\<exists>v. map_of item ''type'' = Some v \<and> remove_null_and_empty env v = Inr c)) \<and>
         (\<forall>c. map_of y ''id'' = Some c \<longrightarrow>
            (\<exists>v. map_of item ''id'' = Some v \<and> remove_null_and_empty env v = Inr c)) \<and>
         (map_of item ''webapp_url'' = None \<longrightarrow>
            ((field_missing item ''type'' \<or> field_missing item ''id'') \<longrightarrow>
               map_of y ''webapp_url'' = None) \<and>
            (\<forall>u. map_of y ''webapp_url'' = Some u \<longrightarrow>
               truthy (py_get y ''type'') \<and> truthy (py_get y ''id'') \<and>
               u = JStr (get_webapp_url env (py_get y ''type'') (py_get y ''id''))))"
      by (intro conjI)
    then show "\<exists>item. JObj item \<in> set (data_items doc) \<and>
         (\<forall>c. map_of y ''type'' = Some c \<longrightarrow>
            (\<exists>v. map_of item ''type'' = Some v \<and> remove_null_and_empty env v = Inr c)) \<and>
         (\<forall>c. map_of y ''id'' = Some c \<longrightarrow>
            (\<exists>v. map_of item ''id'' = Some v \<and> remove_null_and_empty env v = Inr c)) \<and>
         (map_of item ''webapp_url'' = None \<longrightarrow>
            ((field_missing item ''type'' \<or> field_missing item ''id'') \<longrightarrow>
               map_of y ''webapp_url'' = None) \<and>
            (\<forall>u. map_of y ''webapp_url'' = Some u \<longrightarrow>
               truthy (py_get y ''type'') \<and> truthy (py_get y ''id'') \<and>
               u = JStr (get_webapp_url env (py_get y ''type'') (py_get y ''id''))))"
      by - (rule exI, assumption)
  qed
  show ?thesis
    by (rule exI [of _ out], intro conjI, fact out, fact fwd, fact bwd)
qed

theorem filter_response_webapp_url_witness:
  "filter_response demo_env
     (JObj [(''data'', JArr
        [JObj [(''type'', JStr ''projects''), (''id'', JStr ''12''),
               (''attributes'', JObj [(''name'', JStr ''Site'')])],
         JObj [(''type'', JStr ''projects''), (''attributes'', JObj [(''name'', JStr ''Draft'')])]]),
        (''links'', JObj [(''next'', JStr ''u'')])])
   = Inr (JObj [(''data'', JArr
        [JObj [(''type'', JStr ''projects''), (''id'', JStr ''12''),
               (''attributes'', JObj [(''name'', JStr ''Site'')]),
               (''webapp_url'', JStr ''https://app.productive.io/acme/projects/12'')],
         JObj [(''type'', JStr ''projects''), (''attributes'', JObj [(''name'', JStr ''Draft'')])]])])
   \<and> (\<exists>y. JObj y \<in> set
        [JObj [(''type'', JStr ''projects''), (''id'', JStr ''12''),
               (''attributes'', JObj [(''name'', JStr ''Site'')]),
               (''webapp_url'', JStr ''https://app.productive.io/acme/projects/12'')],
         JObj [(''type'', JStr ''projects''), (''attributes'', JObj [(''name'', JStr ''Draft'')])]] \<and>
      map_of y ''type'' = Some (JStr ''projects'') \<and> map_of y ''id'' = Some (JStr ''12'') \<and>
      map_of y ''webapp_url'' = Some (JStr ''https://app.productive.io/acme/projects/12''))"
proof -
  let ?item = "[(''type'', JStr ''projects''), (''id'', JStr ''12''),
               (''attributes'', JObj [(''name'', JStr ''Site'')])]"
  let ?doc = "[(''data'', JArr
        [JObj ?item,
         JObj [(''type'', JStr ''projects''), (''attributes'', JObj [(''name'', JStr ''Draft'')])]]),
        (''links'', JObj [(''next'', JStr ''u'')])]"
  let ?outs = "[JObj [(''type'', JStr ''projects''), (''id'', JStr ''12''),
               (''attributes'', JObj [(''name'', JStr ''Site'')]),
               (''webapp_url'', JStr ''https://app.productive.io/acme/projects/12'')],
         JObj [(''type'', JStr ''projects''), (''attributes'', JObj [(''name'', JStr ''Draft'')])]]"
  have run: "filter_response demo_env (JObj ?doc) = Inr (JObj [(''data'', JArr ?outs)])"
    by code_simp
  have wf: "wf_json (JObj ?doc)"
    by simp
  have item: "JObj ?item \<in> set (data_items ?doc)"
    by (simp add: data_items_def)
  have present: "field_present ?item ''type'' ''projects''" "field_present ?item ''id'' ''12''"
    by (simp_all add: field_present_def)
  from filter_response_webapp_url [OF run wf]
  obtain out where out: "JObj [(''data'', JArr ?outs)] = JObj out"
    and fwd: "\<forall>item t i. JObj item \<in> set (data_items ?doc) \<and> field_present item ''type'' t \<and>
        field_present item ''id'' i \<longrightarrow>
      (\<exists>y. JObj y \<in> set (data_items out) \<and> map_of y ''type'' = Some (JStr t) \<and>
         map_of y ''id'' = Some (JStr i) \<and>
         map_of y ''webapp_url'' =
           Some (JStr (''https://app.productive.io/'' @ organization demo_env @ ''/'' @ t @ ''/'' @ i)))"
    by blast
  from out have o: "data_items out = ?outs"
    by (auto simp: data_items_def)
  from fwd item present
  have "\<exists>y. JObj y \<in> set (data_items out) \<and> map_of y ''type'' = Some (JStr ''projects'') \<and>
         map_of y ''id'' = Some (JStr ''12'') \<and>
         map_of y ''webapp_url'' =
           Some (JStr (''https://app.productive.io/'' @ organization demo_env @ ''/'' @ ''projects''
              @ ''/'' @ ''12''))"
    by blast
  then have "\<exists>y. JObj y \<in> set ?outs \<and> map_of y ''type'' = Some (JStr ''projects'') \<and>
         map_of y ''id'' = Some (JStr ''12'') \<and>
         map_of y ''webapp_url'' = Some (JStr ''https://app.productive.io/acme/projects/12'')"
    unfolding o by (simp add: demo_env_def)
  with run show ?thesis by blast
qed

section \<open>Properties of the task-list filter\<close>

































section \<open>Properties of the single-task tool\<close>












end
